theory Spec2Isabelle
  imports Complex_Main "HOL-Library.AList"
begin

section \<open>JavaScript values\<close>

text \<open>
  The chatbot receives the arguments of a function call as parsed JSON (\<open>args: any\<close>),
  and the invoices are plain objects at run time. An object is the list of its own
  properties in insertion order; a property that is read and not there is \<open>undefined\<close>.
\<close>

datatype jsval =
    JUndefined
  | JNull
  | JBool bool
  | JNum real
  | JStr string
  | JArr "jsval list"
  | JObj "(string \<times> jsval) list"

type_synonym jsobj = "(string \<times> jsval) list"

text \<open>
  What an expression can throw: a \<open>TypeError\<close> raised by the engine (an \<open>Error\<close>
  instance whose message the engine chooses), an \<open>Error\<close> instance with a known
  message, or a value that is not an \<open>Error\<close> instance.
\<close>

datatype thrown = TypeError | ErrorObj string | NonError

text \<open>\<open>o.k\<close> on an object: the value of the first entry for \<open>k\<close>, else \<open>undefined\<close>.\<close>

definition get :: "jsobj \<Rightarrow> string \<Rightarrow> jsval" where
  "get obj k = (case map_of obj k of None \<Rightarrow> JUndefined | Some v \<Rightarrow> v)"

text \<open>
  \<open>args.k\<close> for \<open>args: any\<close> and \<open>k\<close> one of the keys the dispatcher reads
  (\<open>id\<close>, \<open>dueDate\<close>, \<open>clientName\<close>, \<open>amount\<close>, \<open>observations\<close>, \<open>status\<close>):
  reading a property of \<open>undefined\<close> or \<open>null\<close> throws, an object yields the property,
  and a string, number, boolean or array has none of these keys.
\<close>

fun val :: "jsval \<Rightarrow> string \<Rightarrow> jsval" where
  "val (JObj kvs) k = get kvs k"
| "val v k = JUndefined"

definition read_prop :: "jsval \<Rightarrow> string \<Rightarrow> thrown + jsval" where
  "read_prop args k =
     (if args = JUndefined \<or> args = JNull then Inl TypeError else Inr (val args k))"

text \<open>Truthiness, as \<open>if (v)\<close> and \<open>v || w\<close> test it.\<close>

fun truthy :: "jsval \<Rightarrow> bool" where
  "truthy JUndefined = False"
| "truthy JNull = False"
| "truthy (JBool b) = b"
| "truthy (JNum r) = (r \<noteq> 0)"
| "truthy (JStr s) = (s \<noteq> [])"
| "truthy (JArr xs) = True"
| "truthy (JObj kvs) = True"

text \<open>
  \<open>a === b\<close> between a stored value and a value of the parsed arguments: primitives
  compare by value, and an object or array of the arguments is never the same reference
  as one held by the store.
\<close>

fun strict_eq :: "jsval \<Rightarrow> jsval \<Rightarrow> bool" where
  "strict_eq JUndefined JUndefined = True"
| "strict_eq JNull JNull = True"
| "strict_eq (JBool a) (JBool b) = (a = b)"
| "strict_eq (JNum a) (JNum b) = (a = b)"
| "strict_eq (JStr a) (JStr b) = (a = b)"
| "strict_eq a b = False"

text \<open>
  A template literal \<open>`... ${v} ...`\<close> converts \<open>v\<close> to a string. For parsed JSON this
  throws a \<open>TypeError\<close> exactly when an object with an own property \<open>toString\<close> has to
  be converted (the property hides \<open>Object.prototype.toString\<close> and is not callable),
  be it \<open>v\<close> itself or an element of an array that is joined.
\<close>

primrec to_string_throws :: "jsval \<Rightarrow> bool" where
  "to_string_throws JUndefined = False"
| "to_string_throws JNull = False"
| "to_string_throws (JBool b) = False"
| "to_string_throws (JNum r) = False"
| "to_string_throws (JStr s) = False"
| "to_string_throws (JArr xs) = (True \<in> set (map to_string_throws xs))"
| "to_string_throws (JObj kvs) = (''toString'' \<in> set (map fst kvs))"

definition interpolate :: "jsval \<Rightarrow> thrown + jsval" where
  "interpolate v = (if to_string_throws v then Inl TypeError else Inr v)"

text \<open>
  Object spread \<open>{...a, ...b}\<close>: the own properties of \<open>b\<close> are written over a copy of
  \<open>a\<close> one by one; writing an existing key replaces its value in place, writing a new
  key appends it. An array spreads its indices and a string its characters; the other
  primitives have no own properties.
\<close>

definition digit_char :: "nat \<Rightarrow> char" where
  "digit_char n = ''0123456789'' ! (n mod 10)"

function nat_to_string :: "nat \<Rightarrow> string" where
  "nat_to_string n = (if n < 10 then [digit_char n]
                      else nat_to_string (n div 10) @ [digit_char n])"
  by pat_completeness auto
termination
  by (relation "measure id") auto

definition own_props :: "jsval \<Rightarrow> jsobj" where
  "own_props v =
     (case v of
        JObj kvs \<Rightarrow> AList.clearjunk kvs
      | JArr xs \<Rightarrow> map (\<lambda>i. (nat_to_string i, xs ! i)) [0..<length xs]
      | JStr s \<Rightarrow> map (\<lambda>i. (nat_to_string i, JStr [s ! i])) [0..<length s]
      | _ \<Rightarrow> [])"

definition assign :: "jsobj \<Rightarrow> jsobj \<Rightarrow> jsobj" where
  "assign target ps = fold (\<lambda>(k, v). AList.update k v) ps target"

definition spread :: "jsobj \<Rightarrow> jsval \<Rightarrow> jsobj" where
  "spread a b = assign a (own_props b)"

section \<open>The operation dispatcher\<close>

text \<open>
  Modelled from the spec: the enum \<open>InvoiceStatus\<close> is declared in \<open>../types\<close>, which
  is not among the sources; the dispatcher uses its members \<open>Vencido\<close> (the spec's
  Overdue) and \<open>Pendente\<close> (the spec's Pending). Their values are taken to be the
  member names, as the tool description lists them.
\<close>

definition InvoiceStatus_Vencido :: jsval where
  "InvoiceStatus_Vencido = JStr ''Vencido''"

definition InvoiceStatus_Pendente :: jsval where
  "InvoiceStatus_Pendente = JStr ''Pendente''"

text \<open>The three mutations the component receives as props; each call is awaited.\<close>

datatype store_call =
    AddInvoice jsobj
  | UpdateInvoice jsobj
  | DeleteInvoice jsval

text \<open>
  The texts returned to the model are template strings in Portuguese; a text is kept as
  its template together with the value interpolated into it:
  \<^item> \<open>NotFound v\<close> is the not-found message \<open>Nota fiscal com ID ${v} ...\<close>
  \<^item> \<open>UnknownFunction n\<close> is the unknown-function message ending in \<open>${n}\<close>
  \<^item> \<open>NoneWithStatus v\<close> is \<open>Nenhuma nota fiscal encontrada com o status '${v}'.\<close>
\<close>

datatype notice = NotFound jsval | UnknownFunction string | NoneWithStatus jsval

text \<open>
  The values \<open>executeFunctionCall\<close> returns:
  \<^item> \<open>Created c a\<close> is \<open>{ success: true, clientName: c, amount: a }\<close>
  \<^item> \<open>Details inv\<close> is \<open>{ ...invoice }\<close>
  \<^item> \<open>Done v\<close> is \<open>{ success: true, id: v }\<close>
  \<^item> \<open>Summary rows\<close> is the array of projections
  \<^item> \<open>Info m\<close> is \<open>{ message: m }\<close>
  \<^item> \<open>Failure m\<close> is \<open>{ error: m }\<close>
\<close>

datatype result =
    Created jsval jsval
  | Details jsobj
  | Done jsval
  | Summary "jsobj list"
  | Info notice
  | Failure notice

subsection \<open>Dates\<close>

text \<open>
  \<open>new Date()\<close> is seen through what the code reads from it: the calendar date in
  local time (which \<open>setHours(0, 0, 0, 0)\<close> truncates to), the calendar date in UTC
  (which \<open>toISOString()\<close> prints), and the offset of local time from UTC in
  milliseconds, taken as constant. A date is (year, month 1..12, day).
\<close>

type_synonym ymd = "int \<times> int \<times> int"

record clock =
  local_today :: ymd
  utc_today :: ymd
  tza :: int

text \<open>
  The environment of a call: the clock; the engine's \<open>String.prototype.toLowerCase\<close>
  and \<open>String.prototype.trim\<close>, which follow the Unicode tables and are taken as they
  are; \<open>Number\<close> on the strings that are not plain digit sequences (\<open>None\<close> for
  \<open>NaN\<close> and the infinities); and whether the promise of a store call rejects (and
  with what).
\<close>

record env =
  now :: clock
  toLowerCase :: "string \<Rightarrow> string"
  trim :: "string \<Rightarrow> string"
  number_other :: "string \<Rightarrow> real option"
  store_rejects :: "store_call \<Rightarrow> thrown option"

text \<open>\<open>s.split('-')\<close>.\<close>

fun split_on :: "char \<Rightarrow> string \<Rightarrow> string list" where
  "split_on c [] = [[]]"
| "split_on c (x # xs) =
     (if x = c then [] # split_on c xs
      else (case split_on c xs of [] \<Rightarrow> [[x]] | p # ps \<Rightarrow> (x # p) # ps))"

text \<open>
  \<open>Number(s)\<close>: the empty string is 0 and a sequence of decimal digits is its value;
  every other string is left to the environment.
\<close>

definition is_digit :: "char \<Rightarrow> bool" where
  "is_digit c = (48 \<le> (of_char c :: nat) \<and> (of_char c :: nat) \<le> 57)"

definition decimal :: "string \<Rightarrow> nat" where
  "decimal s = foldl (\<lambda>a c. 10 * a + ((of_char c :: nat) - 48)) 0 s"

definition js_Number :: "env \<Rightarrow> string \<Rightarrow> real option" where
  "js_Number e s = (if list_all is_digit s then Some (real (decimal s)) else number_other e s)"

text \<open>
  The day number of a date, after ECMAScript's \<open>DayFromYear\<close> and \<open>MakeDay\<close>
  (month counted from 0, months and days outside their range carried over).
\<close>

definition DayFromYear :: "int \<Rightarrow> int" where
  "DayFromYear y = 365 * (y - 1970) + (y - 1969) div 4 - (y - 1901) div 100 + (y - 1601) div 400"

definition InLeapYear :: "int \<Rightarrow> bool" where
  "InLeapYear y = (y mod 4 = 0 \<and> (y mod 100 \<noteq> 0 \<or> y mod 400 = 0))"

definition month_start :: "int \<Rightarrow> int \<Rightarrow> int" where
  "month_start y mn =
     [0, 31, 59, 90, 120, 151, 181, 212, 243, 273, 304, 334] ! nat mn
       + (if InLeapYear y \<and> 2 \<le> mn then 1 else 0)"

definition MakeDay :: "int \<Rightarrow> int \<Rightarrow> int \<Rightarrow> int" where
  "MakeDay yr m dt =
     (let ym = yr + m div 12; mn = m mod 12
      in DayFromYear ym + month_start ym mn + dt - 1)"

definition msPerDay :: int where
  "msPerDay = 86400000"

definition TimeClip :: "int \<Rightarrow> int option" where
  "TimeClip t = (if \<bar>t\<bar> > 8640000000000000 then None else Some t)"

definition ToIntegerOrInfinity :: "real \<Rightarrow> int" where
  "ToIntegerOrInfinity r = (if 0 \<le> r then \<lfloor>r\<rfloor> else \<lceil>r\<rceil>)"

text \<open>
  \<open>new Date(year, month, day)\<close>: the time value of local midnight of that day, or
  \<open>None\<close> for an invalid date. A year from 0 to 99 means 1900 + year.
\<close>

definition new_Date :: "clock \<Rightarrow> real option \<Rightarrow> real option \<Rightarrow> real option \<Rightarrow> int option" where
  "new_Date c year month day =
     (case (year, month, day) of
        (Some y, Some m, Some d) \<Rightarrow>
          (let yi = ToIntegerOrInfinity y;
               yr = (if 0 \<le> yi \<and> yi \<le> 99 then 1900 + yi else yi)
           in TimeClip (MakeDay yr (ToIntegerOrInfinity m) (ToIntegerOrInfinity d) * msPerDay - tza c))
      | _ \<Rightarrow> None)"

text \<open>\<open>const today = new Date(); today.setHours(0, 0, 0, 0)\<close>.\<close>

definition today_midnight :: "clock \<Rightarrow> int option" where
  "today_midnight c =
     (case local_today c of (y, m, d) \<Rightarrow> TimeClip (MakeDay y (m - 1) d * msPerDay - tza c))"

text \<open>\<open>a < b\<close> on two dates: false when either is invalid.\<close>

definition date_lt :: "int option \<Rightarrow> int option \<Rightarrow> bool" where
  "date_lt a b = (case (a, b) of (Some x, Some y) \<Rightarrow> x < y | _ \<Rightarrow> False)"

text \<open>\<open>new Date().toISOString().split('T')[0]\<close>.\<close>

definition pad2 :: "nat \<Rightarrow> string" where
  "pad2 n = [digit_char (n div 10), digit_char n]"

definition pad4 :: "nat \<Rightarrow> string" where
  "pad4 n = [digit_char (n div 1000), digit_char (n div 100), digit_char (n div 10), digit_char n]"

definition pad6 :: "nat \<Rightarrow> string" where
  "pad6 n = [digit_char (n div 100000), digit_char (n div 10000)] @ pad4 n"

definition iso_date :: "ymd \<Rightarrow> string" where
  "iso_date t =
     (case t of (y, m, d) \<Rightarrow>
        (if 0 \<le> y \<and> y \<le> 9999 then pad4 (nat y)
         else (if y < 0 then ''-'' else ''+'') @ pad6 (nat \<bar>y\<bar>))
        @ ''-'' @ pad2 (nat m) @ ''-'' @ pad2 (nat d))"

subsection \<open>executeFunctionCall\<close>

text \<open>
  \<open>v.toLowerCase()\<close>: a value that is not a string has no such method, and calling it
  throws. \<open>invoices.find(inv => inv.id.toLowerCase() === args.id.toLowerCase())\<close>: the
  callback runs on each invoice in turn until one matches, and whatever it throws ends
  the search. On an empty collection the callback, and so \<open>args.id\<close>, is never evaluated.
\<close>

fun call_toLowerCase :: "env \<Rightarrow> jsval \<Rightarrow> thrown + string" where
  "call_toLowerCase e (JStr s) = Inr (toLowerCase e s)"
| "call_toLowerCase e v = Inl TypeError"

fun find_invoice :: "env \<Rightarrow> jsobj list \<Rightarrow> jsval \<Rightarrow> thrown + jsobj option" where
  "find_invoice e [] args = Inr None"
| "find_invoice e (iv # rest) args =
     (case call_toLowerCase e (get iv ''id'') of
        Inl t \<Rightarrow> Inl t
      | Inr a \<Rightarrow>
          (case read_prop args ''id'' of
             Inl t \<Rightarrow> Inl t
           | Inr v \<Rightarrow>
               (case call_toLowerCase e v of
                  Inl t \<Rightarrow> Inl t
                | Inr b \<Rightarrow> if a = b then Inr (Some iv) else find_invoice e rest args)))"

text \<open>
  The outcome of a call: the store calls issued, in order, and what the call threw or
  returned. An awaited store call that rejects throws in the caller.
\<close>

type_synonym outcome = "store_call list \<times> (thrown + result)"

definition await :: "env \<Rightarrow> store_call \<Rightarrow> result \<Rightarrow> outcome" where
  "await e c r = ([c], case store_rejects e c of Some t \<Rightarrow> Inl t | None \<Rightarrow> Inr r)"

text \<open>
  The template \<open>Nota fiscal com ID ${args.id} ...\<close> evaluates \<open>args.id\<close> and converts it
  to a string.
\<close>

definition not_found :: "jsval \<Rightarrow> outcome" where
  "not_found args =
     (case read_prop args ''id'' of
        Inl t \<Rightarrow> ([], Inl t)
      | Inr v \<Rightarrow>
          (case interpolate v of
             Inl t \<Rightarrow> ([], Inl t)
           | Inr shown \<Rightarrow> ([], Inr (Failure (NotFound shown)))))"

text \<open>Element \<open>i\<close> of the destructured array of numbers; a missing one is \<open>undefined\<close>.\<close>

definition elem :: "real option list \<Rightarrow> nat \<Rightarrow> real option" where
  "elem xs i = (if i < length xs then xs ! i else None)"

text \<open>
  \<open>const [year, month, day] = dueDate.split('-').map(Number)\<close> and
  \<open>new Date(year, month - 1, day)\<close>.
\<close>

definition dueDateObj :: "env \<Rightarrow> string \<Rightarrow> int option" where
  "dueDateObj e dueDate =
     (let nums = map (js_Number e) (split_on CHR ''-'' dueDate)
      in new_Date (now e) (elem nums 0) (map_option (\<lambda>month. month - 1) (elem nums 1))
           (elem nums 2))"

definition project :: "jsobj \<Rightarrow> jsobj" where
  "project iv =
     [(''id'', get iv ''id''), (''clientName'', get iv ''clientName''),
      (''amount'', get iv ''amount''), (''status'', get iv ''status''),
      (''dueDate'', get iv ''dueDate'')]"

definition executeFunctionCall :: "env \<Rightarrow> jsobj list \<Rightarrow> string \<Rightarrow> jsval \<Rightarrow> outcome" where
  "executeFunctionCall e invoices name args =
     (if name = ''createInvoice'' then
        (case read_prop args ''dueDate'' of
           Inl t \<Rightarrow> ([], Inl t)
         | Inr (JStr s) \<Rightarrow>
             (let today = today_midnight (now e);
                  newInvoiceData =
                    [(''clientName'', val args ''clientName''),
                     (''amount'', val args ''amount''),
                     (''issueDate'', JStr (iso_date (utc_today (now e)))),
                     (''dueDate'', JStr s),
                     (''status'', if date_lt (dueDateObj e s) today then InvoiceStatus_Vencido
                                  else InvoiceStatus_Pendente),
                     (''observations'', if truthy (val args ''observations'')
                                        then val args ''observations'' else JStr [])]
              in await e (AddInvoice newInvoiceData)
                   (Created (val args ''clientName'') (val args ''amount'')))
         | Inr _ \<Rightarrow> ([], Inl TypeError))
      else if name = ''getInvoiceDetails'' then
        (case find_invoice e invoices args of
           Inl t \<Rightarrow> ([], Inl t)
         | Inr (Some invoice) \<Rightarrow> ([], Inr (Details invoice))
         | Inr None \<Rightarrow> not_found args)
      else if name = ''updateInvoice'' then
        (case find_invoice e invoices args of
           Inl t \<Rightarrow> ([], Inl t)
         | Inr None \<Rightarrow> not_found args
         | Inr (Some originalInvoice) \<Rightarrow>
             await e (UpdateInvoice (spread originalInvoice args)) (Done (val args ''id'')))
      else if name = ''deleteInvoice'' then
        (case find_invoice e invoices args of
           Inl t \<Rightarrow> ([], Inl t)
         | Inr None \<Rightarrow> not_found args
         | Inr (Some _) \<Rightarrow> await e (DeleteInvoice (val args ''id'')) (Done (val args ''id'')))
      else if name = ''listInvoices'' then
        (case read_prop args ''status'' of
           Inl t \<Rightarrow> ([], Inl t)
         | Inr status \<Rightarrow>
             (let results = (if truthy status
                             then filter (\<lambda>iv. strict_eq (get iv ''status'') status) invoices
                             else invoices)
              in if length results > 0 then ([], Inr (Summary (map project results)))
                 else (case interpolate (if truthy status then status else JStr ''qualquer'') of
                         Inl t \<Rightarrow> ([], Inl t)
                       | Inr shown \<Rightarrow> ([], Inr (Info (NoneWithStatus shown))))))
      else ([], Inr (Failure (UnknownFunction name))))"

section \<open>The conversation orchestrator\<close>

text \<open>
  A \<open>Message\<close> of the chat window, a \<open>Part\<close> and a \<open>Content\<close> (turn) of the
  provider's format, and a function call of a reply. The payload of a function response
  is \<open>{ result }\<close> or \<open>{ error: errorMessage }\<close>, where the message is that of the
  \<open>Error\<close> caught or else the fallback text naming the function.
\<close>

record Message =
  m_role :: string
  m_text :: string

datatype failure_text = MessageOf thrown | FallbackFor string

datatype payload = Result result | ErrorPayload failure_text

datatype Part =
    TextPart string
  | FunctionCallPart string jsval
  | FunctionResponse string payload

record Content =
  c_role :: string
  c_parts :: "Part list"

record FunctionCall =
  fc_name :: string
  fc_args :: jsval

text \<open>What the proxy answers with status 200: \<open>{ text, functionCalls, parts }\<close>.\<close>

record Reply =
  r_text :: "string option"
  r_functionCalls :: "FunctionCall list option"
  r_parts :: "Part list"

text \<open>
  The strings the component gets from elsewhere: the three translations it looks up, and
  the message the engine gives a \<open>TypeError\<close>.
\<close>

record strings =
  welcomeMessage :: string
  apiKeyMissing :: string
  errorMessage :: string
  typeErrorMessage :: string

text \<open>The React state the handler reads and sets.\<close>

record ChatState =
  messages :: "Message list"
  input :: string
  isLoading :: bool
  error :: "string option"

text \<open>
  What one run of \<open>handleSend\<close> leaves behind: the new state, the contents of every
  request sent to the proxy, the store calls issued, and the final value of the local
  \<open>geminiHistory\<close>.
\<close>

record Sent =
  state :: ChatState
  relay_calls :: "Content list list"
  store_calls :: "store_call list"
  history :: "Content list"

text \<open>\<open>err instanceof Error ? err.message : fallback\<close>.\<close>

definition message_or :: "strings \<Rightarrow> thrown \<Rightarrow> string \<Rightarrow> string" where
  "message_or t err fallback =
     (case err of TypeError \<Rightarrow> typeErrorMessage t | ErrorObj m \<Rightarrow> m | NonError \<Rightarrow> fallback)"

text \<open>
  The \<open>for (const fc of geminiResponse.functionCalls)\<close> loop: each call is executed in
  turn against the same \<open>invoices\<close> of this render, and one function response is
  pushed for it, in the \<open>try\<close> or in the \<open>catch\<close>.
\<close>

definition respond :: "FunctionCall \<Rightarrow> thrown + result \<Rightarrow> Part" where
  "respond fc r =
     (case r of
        Inr result \<Rightarrow> FunctionResponse (fc_name fc) (Result result)
      | Inl NonError \<Rightarrow> FunctionResponse (fc_name fc) (ErrorPayload (FallbackFor (fc_name fc)))
      | Inl err \<Rightarrow> FunctionResponse (fc_name fc) (ErrorPayload (MessageOf err)))"

fun run_calls :: "env \<Rightarrow> jsobj list \<Rightarrow> FunctionCall list \<Rightarrow> store_call list \<times> Part list" where
  "run_calls e invoices [] = ([], [])"
| "run_calls e invoices (fc # fcs) =
     (case executeFunctionCall e invoices (fc_name fc) (fc_args fc) of
        (calls, r) \<Rightarrow>
          (case run_calls e invoices fcs of
             (calls', functionResponses) \<Rightarrow> (calls @ calls', respond fc r # functionResponses)))"

text \<open>\<open>geminiResponse.functionCalls && geminiResponse.functionCalls.length > 0\<close>.\<close>

definition has_calls :: "Reply \<Rightarrow> bool" where
  "has_calls r = (case r_functionCalls r of None \<Rightarrow> False | Some fcs \<Rightarrow> length fcs > 0)"

definition the_calls :: "Reply \<Rightarrow> FunctionCall list" where
  "the_calls r = (case r_functionCalls r of None \<Rightarrow> [] | Some fcs \<Rightarrow> fcs)"

text \<open>
  Building the system instruction interpolates \<open>inv.id\<close>, \<open>inv.clientName\<close>,
  \<open>inv.amount.toFixed(2)\<close> and \<open>inv.status\<close> of every invoice; \<open>toFixed\<close> throws unless the
  amount is a number.
\<close>

definition context_throws :: "jsobj list \<Rightarrow> bool" where
  "context_throws invoices =
     list_ex (\<lambda>iv. to_string_throws (get iv ''id'') \<or> to_string_throws (get iv ''clientName'')
                   \<or> (case get iv ''amount'' of JNum a \<Rightarrow> False | _ \<Rightarrow> True)
                   \<or> to_string_throws (get iv ''status'')) invoices"

text \<open>The history in the provider's format, without the welcome and the key-missing notices.\<close>

definition to_history :: "strings \<Rightarrow> Message list \<Rightarrow> Content list" where
  "to_history t currentMessages =
     map (\<lambda>msg. \<lparr>c_role = m_role msg, c_parts = [TextPart (m_text msg)]\<rparr>)
       (filter (\<lambda>msg. m_text msg \<noteq> welcomeMessage t \<and> m_text msg \<noteq> apiKeyMissing t)
          currentMessages)"

text \<open>
  The body of the \<open>try\<close> block: the requests sent, the store calls issued, the final
  history, and either what was thrown or the \<open>text\<close> of the last reply.
\<close>

definition try_block ::
  "env \<Rightarrow> (Content list \<Rightarrow> thrown + Reply) \<Rightarrow> jsobj list \<Rightarrow> Content list
     \<Rightarrow> Content list list \<times> store_call list \<times> Content list \<times> (thrown + string option)" where
  "try_block e callProxy invoices geminiHistory =
     (if context_throws invoices then ([], [], geminiHistory, Inl TypeError)
      else
        (case callProxy geminiHistory of
           Inl err \<Rightarrow> ([geminiHistory], [], geminiHistory, Inl err)
         | Inr geminiResponse \<Rightarrow>
             if has_calls geminiResponse then
               (let h1 = geminiHistory @ [\<lparr>c_role = ''model'', c_parts = r_parts geminiResponse\<rparr>]
                in case run_calls e invoices (the_calls geminiResponse) of
                     (calls, functionResponses) \<Rightarrow>
                       (let h2 = h1 @ [\<lparr>c_role = ''user'', c_parts = functionResponses\<rparr>]
                        in case callProxy h2 of
                             Inl err \<Rightarrow> ([geminiHistory, h2], calls, h2, Inl err)
                           | Inr geminiResponse2 \<Rightarrow>
                               ([geminiHistory, h2], calls, h2, Inr (r_text geminiResponse2))))
             else ([geminiHistory], [], geminiHistory, Inr (r_text geminiResponse))))"

text \<open>\<open>if (geminiResponse.text) setMessages(prev => [...prev, { role: 'model', text }])\<close>.\<close>

definition final_turn :: "string option \<Rightarrow> Message list" where
  "final_turn txt =
     (case txt of
        None \<Rightarrow> []
      | Some s \<Rightarrow> if s = [] then [] else [\<lparr>m_role = ''model'', m_text = s\<rparr>])"

text \<open>\<open>!input.trim() || isLoading || error\<close>.\<close>

definition blocked :: "env \<Rightarrow> ChatState \<Rightarrow> bool" where
  "blocked e st =
     (trim e (input st) = [] \<or> isLoading st
      \<or> (case error st of None \<Rightarrow> False | Some s \<Rightarrow> s \<noteq> []))"

definition handleSend ::
  "strings \<Rightarrow> env \<Rightarrow> (Content list \<Rightarrow> thrown + Reply) \<Rightarrow> jsobj list \<Rightarrow> ChatState \<Rightarrow> Sent" where
  "handleSend t e callProxy invoices st =
     (if blocked e st
      then \<lparr>state = st, relay_calls = [], store_calls = [], history = []\<rparr>
      else
        (let userMessage = \<lparr>m_role = ''user'', m_text = input st\<rparr>;
             currentMessages = messages st @ [userMessage];
             geminiHistory = to_history t currentMessages
         in case try_block e callProxy invoices geminiHistory of
              (sent, calls, h, Inr txt) \<Rightarrow>
                \<lparr>state = \<lparr>messages = currentMessages @ final_turn txt, input = [],
                           isLoading = False, error = None\<rparr>,
                 relay_calls = sent, store_calls = calls, history = h\<rparr>
            | (sent, calls, h, Inl err) \<Rightarrow>
                \<lparr>state = \<lparr>messages = currentMessages
                                      @ [\<lparr>m_role = ''model'',
                                          m_text = message_or t err (errorMessage t)\<rparr>],
                           input = [], isLoading = False,
                           error = Some (message_or t err (errorMessage t))\<rparr>,
                 relay_calls = sent, store_calls = calls, history = h\<rparr>))"

section \<open>The relay\<close>

text \<open>
  The serverless handler: the request's method and parsed body, the \<open>API_KEY\<close> of the
  environment, and the provider's \<open>generateContent\<close>, which answers or throws. The
  outcome lists the requests that reached the provider.
\<close>

record Request =
  req_method :: string
  req_body :: jsval

record GenerateContentResponse =
  g_text :: "string option"
  g_functionCalls :: "FunctionCall list option"
  g_parts :: "Part list option"

datatype Json =
    ErrorJson string
  | StatusOk
  | ResponseData "string option" "FunctionCall list option" "Part list"

record Response =
  status :: nat
  json :: Json

definition handler ::
  "strings \<Rightarrow> string option \<Rightarrow> (jsval \<Rightarrow> thrown + GenerateContentResponse) \<Rightarrow> Request
     \<Rightarrow> jsval list \<times> (thrown + Response)" where
  "handler t apiKey generateContent req =
     (if req_method req \<noteq> ''POST''
      then ([], Inr \<lparr>status = 405, json = ErrorJson ''Method Not Allowed''\<rparr>)
      else if apiKey = None \<or> apiKey = Some []
      then ([], Inr \<lparr>status = 500, json = ErrorJson ''API key not configured on server.''\<rparr>)
      else
        (case read_prop (req_body req) ''ping'' of
           Inl err \<Rightarrow> ([], Inl err)
         | Inr ping \<Rightarrow>
             if truthy ping then ([], Inr \<lparr>status = 200, json = StatusOk\<rparr>)
             else
               (let params = req_body req
                in case generateContent params of
                     Inr response \<Rightarrow>
                       ([params],
                        Inr \<lparr>status = 200,
                             json = ResponseData (g_text response) (g_functionCalls response)
                                      (case g_parts response of None \<Rightarrow> [] | Some ps \<Rightarrow> ps)\<rparr>)
                   | Inl err \<Rightarrow>
                       ([params],
                        Inr \<lparr>status = 500,
                             json = ErrorJson (message_or t err
                                      ''An error occurred while calling the Gemini API.'')\<rparr>))))"

section \<open>Example data\<close>

text \<open>
  A clock at 22:30 on 14 March 2024 in Sao Paulo (UTC-3), which is 01:30 on 15 March in
  UTC; an environment whose store accepts every call; two stored invoices.
\<close>

text \<open>
  For the examples, which use ASCII strings only, the two string functions of the engine
  are given on ASCII: the letters A to Z are lowered, and the characters 9 to 13 and 32
  are trimmed.
\<close>

definition ascii_lower :: "string \<Rightarrow> string" where
  "ascii_lower s =
     map (\<lambda>c. case map_of (zip ''ABCDEFGHIJKLMNOPQRSTUVWXYZ'' ''abcdefghijklmnopqrstuvwxyz'') c of
                None \<Rightarrow> c
              | Some l \<Rightarrow> l) s"

definition ascii_space :: "char \<Rightarrow> bool" where
  "ascii_space c = ((of_char c :: nat) \<in> {9, 10, 11, 12, 13, 32})"

definition ascii_trim :: "string \<Rightarrow> string" where
  "ascii_trim s = rev (dropWhile ascii_space (rev (dropWhile ascii_space s)))"

definition late_evening :: clock where
  "late_evening = \<lparr>local_today = (2024, 3, 14), utc_today = (2024, 3, 15), tza = - 10800000\<rparr>"

definition quiet_env :: env where
  "quiet_env = \<lparr>now = late_evening, toLowerCase = ascii_lower, trim = ascii_trim,
                 number_other = (\<lambda>s. None), store_rejects = (\<lambda>c. None)\<rparr>"

definition alice :: jsobj where
  "alice = [(''id'', JStr ''ABC''), (''clientName'', JStr ''Alice''), (''amount'', JNum 100),
            (''issueDate'', JStr ''2024-03-01''), (''dueDate'', JStr ''2099-01-01''),
            (''status'', JStr ''Pendente''), (''observations'', JStr [])]"

definition carla :: jsobj where
  "carla = [(''id'', JStr ''XYZ''), (''clientName'', JStr ''Carla''), (''amount'', JNum 250),
            (''issueDate'', JStr ''2024-03-02''), (''dueDate'', JStr ''2024-04-01''),
            (''status'', JStr ''Pago''), (''observations'', JStr ''paid'')]"

text \<open>Arguments for \<open>createInvoice\<close>: without a due date, and due on 14 March 2024.\<close>

definition bob_no_due :: jsval where
  "bob_no_due = JObj [(''clientName'', JStr ''Bob''), (''amount'', JNum 5)]"

definition bob_due_today :: jsval where
  "bob_due_today = JObj [(''clientName'', JStr ''Bob''), (''amount'', JNum 5), (''dueDate'', JStr ''2024-03-14'')]"

text \<open>
  A chat window in which the user has typed a request; replies of the proxy with one
  function call, with a further function call and a text, with two function calls of
  which the second lacks its \<open>dueDate\<close>, and with a text only; and proxies that answer
  the first request with function calls and the second with one of the other replies.
\<close>

definition ui_strings :: strings where
  "ui_strings = \<lparr>welcomeMessage = ''Welcome'', apiKeyMissing = ''API key missing'',
                 errorMessage = ''Something went wrong'', typeErrorMessage = ''TypeError''\<rparr>"

definition asking :: ChatState where
  "asking = \<lparr>messages = [], input = ''invoice for Bob'', isLoading = False, error = None\<rparr>"

definition reply_list :: Reply where
  "reply_list = \<lparr>r_text = None,
                 r_functionCalls = Some [\<lparr>fc_name = ''listInvoices'', fc_args = JObj []\<rparr>],
                 r_parts = [FunctionCallPart ''listInvoices'' (JObj [])]\<rparr>"

definition reply_create :: Reply where
  "reply_create = \<lparr>r_text = Some ''Creating it'',
                   r_functionCalls = Some [\<lparr>fc_name = ''createInvoice'', fc_args = bob_due_today\<rparr>],
                   r_parts = [TextPart ''Creating it'', FunctionCallPart ''createInvoice'' bob_due_today]\<rparr>"

definition reply_two :: Reply where
  "reply_two = \<lparr>r_text = None,
                r_functionCalls = Some [\<lparr>fc_name = ''listInvoices'', fc_args = JObj []\<rparr>,
                                        \<lparr>fc_name = ''createInvoice'', fc_args = bob_no_due\<rparr>],
                r_parts = [FunctionCallPart ''listInvoices'' (JObj []),
                           FunctionCallPart ''createInvoice'' bob_no_due]\<rparr>"

definition reply_plain :: Reply where
  "reply_plain = \<lparr>r_text = Some ''Hello'', r_functionCalls = None, r_parts = [TextPart ''Hello'']\<rparr>"

definition relay_twice :: "Content list \<Rightarrow> thrown + Reply" where
  "relay_twice contents = (if length contents = 1 then Inr reply_list else Inr reply_create)"

definition relay_two :: "Content list \<Rightarrow> thrown + Reply" where
  "relay_two contents = (if length contents = 1 then Inr reply_two else Inr reply_plain)"

definition relay_create :: "Content list \<Rightarrow> thrown + Reply" where
  "relay_create contents = (if length contents = 1 then Inr reply_create else Inr reply_plain)"

definition relay_plain :: "Content list \<Rightarrow> thrown + Reply" where
  "relay_plain contents = Inr reply_plain"

text \<open>A probe request, and a provider that is down.\<close>

definition ping_request :: Request where
  "ping_request = \<lparr>req_method = ''POST'', req_body = JObj [(''ping'', JBool True)]\<rparr>"

definition provider_down :: "jsval \<Rightarrow> thrown + GenerateContentResponse" where
  "provider_down params = Inl (ErrorObj ''unavailable'')"

section \<open>Predicates used in the statements\<close>

text \<open>
  A value is a string; every stored invoice has a string \<open>id\<close>; and, for each
  operation, the field that \<open>executeFunctionCall\<close> dereferences is there: a string
  \<open>dueDate\<close> for \<open>createInvoice\<close>, a string \<open>id\<close> for the three operations that
  search by id, and arguments that are neither \<open>undefined\<close> nor \<open>null\<close>, with a
  \<open>status\<close> that can be converted to a string, for \<open>listInvoices\<close>.
\<close>

definition is_string :: "jsval \<Rightarrow> bool" where
  "is_string v = (case v of JStr s \<Rightarrow> True | _ \<Rightarrow> False)"

definition ids_are_strings :: "jsobj list \<Rightarrow> bool" where
  "ids_are_strings invoices = list_all (\<lambda>iv. case get iv ''id'' of JStr s \<Rightarrow> True | _ \<Rightarrow> False) invoices"

definition required_present :: "string \<Rightarrow> jsval \<Rightarrow> bool" where
  "required_present name args =
     (if name = ''createInvoice'' then (case val args ''dueDate'' of JStr s \<Rightarrow> True | _ \<Rightarrow> False)
      else if name = ''getInvoiceDetails'' \<or> name = ''updateInvoice'' \<or> name = ''deleteInvoice''
      then (case val args ''id'' of JStr s \<Rightarrow> True | _ \<Rightarrow> False)
      else if name = ''listInvoices''
      then args \<noteq> JUndefined \<and> args \<noteq> JNull \<and> \<not> to_string_throws (val args ''status'')
      else True)"

text \<open>
  An invoice is stored under an id that matches \<open>s\<close> up to letter case: its \<open>id\<close> is a
  string with the same lower-case form as \<open>s\<close>.
\<close>

definition stored_under :: "env \<Rightarrow> string \<Rightarrow> jsobj \<Rightarrow> bool" where
  "stored_under e s iv =
     (case get iv ''id'' of JStr u \<Rightarrow> toLowerCase e u = toLowerCase e s | _ \<Rightarrow> False)"

text \<open>
  The calendar: the days of a month, a date that exists, the order of dates (the
  date-only comparison), and a date written as \<open>YYYY-MM-DD\<close>.
\<close>

definition days_in_month :: "int \<Rightarrow> int \<Rightarrow> int" where
  "days_in_month y m =
     (if m = 2 then (if InLeapYear y then 29 else 28)
      else if m = 4 \<or> m = 6 \<or> m = 9 \<or> m = 11 then 30 else 31)"

definition valid_date :: "ymd \<Rightarrow> bool" where
  "valid_date t = (case t of (y, m, d) \<Rightarrow> 1 \<le> m \<and> m \<le> 12 \<and> 1 \<le> d \<and> d \<le> days_in_month y m)"

definition date_before :: "ymd \<Rightarrow> ymd \<Rightarrow> bool" where
  "date_before a b =
     (case (a, b) of
        ((y, m, d), (y', m', d')) \<Rightarrow> y < y' \<or> (y = y' \<and> (m < m' \<or> (m = m' \<and> d < d'))))"

definition date_string :: "nat \<Rightarrow> nat \<Rightarrow> nat \<Rightarrow> string" where
  "date_string y m d = pad4 y @ ''-'' @ pad2 m @ ''-'' @ pad2 d"

text \<open>
  The function response a function call must get: it carries the call's name and the
  outcome of executing the call, the result returned or else an error payload with the
  message of what was thrown (the fallback text when that is not an \<open>Error\<close>).
\<close>

definition response_for :: "env \<Rightarrow> jsobj list \<Rightarrow> FunctionCall \<Rightarrow> Part" where
  "response_for e invoices fc =
     FunctionResponse (fc_name fc)
       (case snd (executeFunctionCall e invoices (fc_name fc) (fc_args fc)) of
          Inr r \<Rightarrow> Result r
        | Inl err \<Rightarrow> ErrorPayload (if err = NonError then FallbackFor (fc_name fc)
                                     else MessageOf err))"

text \<open>
  The contents of the first request of a run of \<open>handleSend\<close>: every message of the
  window that is neither the welcome nor the key-missing notice, and the user's new
  message, each as a turn with one text part. The contents of the second request, sent
  when the first reply holds the function calls \<open>calls\<close>: the first, the reply's raw
  parts as a model turn, and the responses to all the calls as one user turn.
\<close>

definition first_request :: "strings \<Rightarrow> ChatState \<Rightarrow> Content list" where
  "first_request t st =
     map (\<lambda>msg. \<lparr>c_role = m_role msg, c_parts = [TextPart (m_text msg)]\<rparr>)
       (filter (\<lambda>msg. m_text msg \<noteq> welcomeMessage t \<and> m_text msg \<noteq> apiKeyMissing t)
          (messages st @ [\<lparr>m_role = ''user'', m_text = input st\<rparr>]))"

definition second_request ::
  "strings \<Rightarrow> env \<Rightarrow> jsobj list \<Rightarrow> ChatState \<Rightarrow> Reply \<Rightarrow> FunctionCall list \<Rightarrow> Content list" where
  "second_request t e invoices st reply calls =
     first_request t st
       @ [\<lparr>c_role = ''model'', c_parts = r_parts reply\<rparr>,
          \<lparr>c_role = ''user'', c_parts = map (response_for e invoices) calls\<rparr>]"

text \<open>The assistant's turn appended for the text of a reply: none when the text is missing or empty.\<close>

definition assistant_turn :: "Reply \<Rightarrow> Message list" where
  "assistant_turn reply =
     (case r_text reply of
        None \<Rightarrow> []
      | Some s \<Rightarrow> if s = [] then [] else [\<lparr>m_role = ''model'', m_text = s\<rparr>])"

section \<open>Properties of the dispatcher\<close>

subsection \<open>Object spread and the search by id\<close>

lemma map_of_assign: "map_of (assign a ps) = map_of a ++ map_of (rev ps)"
  unfolding assign_def
  by (induction ps arbitrary: a) (auto simp: update_conv' map_add_def fun_eq_iff split: option.splits)

lemma find_invoice_none:
  assumes "read_prop args ''id'' = Inr (JStr s)"
    and "\<forall>iv\<in>set invoices. \<exists>t. get iv ''id'' = JStr t \<and> toLowerCase e t \<noteq> toLowerCase e s"
  shows "find_invoice e invoices args = Inr None"
  using assms by (induction invoices) auto

lemma find_invoice_cong:
  assumes "read_prop a ''id'' = Inr (JStr s)" and "read_prop b ''id'' = Inr (JStr t)"
    and "toLowerCase e s = toLowerCase e t"
  shows "find_invoice e invoices a = find_invoice e invoices b"
  using assms by (induction invoices) (auto split: sum.splits)

lemma find_invoice_find:
  assumes "read_prop args ''id'' = Inr (JStr s)"
    and "\<forall>iv\<in>set invoices. \<exists>t. get iv ''id'' = JStr t"
  shows "find_invoice e invoices args = Inr (List.find (stored_under e s) invoices)"
  using assms by (induction invoices) (auto simp: stored_under_def)

lemma read_prop_JStr:
  "read_prop args k = Inr (JStr s) \<Longrightarrow> \<exists>kvs. args = JObj kvs \<and> get kvs k = JStr s"
  by (cases args) (auto simp: read_prop_def)

lemma call_toLowerCase_Inr:
  "call_toLowerCase e v = Inr a \<Longrightarrow> \<exists>s. v = JStr s \<and> a = toLowerCase e s"
  by (cases v) auto

lemma find_invoice_found:
  assumes "find_invoice e invoices args = Inr (Some r)"
  shows "r \<in> set invoices
       \<and> (\<exists>s t. read_prop args ''id'' = Inr (JStr s) \<and> get r ''id'' = JStr t
                 \<and> toLowerCase e t = toLowerCase e s)"
  using assms 
proof (induction invoices)
  case Nil
  then show ?case by simp
next
  case (Cons iv rest)
  from Cons.prems obtain a where a: "call_toLowerCase e (get iv ''id'') = Inr a"
    by (auto split: sum.splits)
  from Cons.prems a obtain v where v: "read_prop args ''id'' = Inr v"
    by (auto split: sum.splits)
  from Cons.prems a v obtain b where b: "call_toLowerCase e v = Inr b"
    by (auto split: sum.splits)
  show ?case
  proof (cases "a = b")
    case True
    with Cons.prems a v b have "r = iv" by simp
    with a b v True show ?thesis
      by (auto dest!: call_toLowerCase_Inr)
  next
    case False
    with Cons.prems a v b have "find_invoice e rest args = Inr (Some r)" by simp
    with Cons.IH show ?thesis by auto
  qed
qed


lemma map_of_assign_distinct:
  assumes "distinct (map fst ps)"
  shows "map_of (assign a ps) = map_of a ++ map_of ps"
proof -
  have "map_of (rev ps) = map_of ps"
  proof
    fix k
    show "map_of (rev ps) k = map_of ps k"
    proof (cases "map_of ps k")
      case None
      then have "k \<notin> fst ` set (rev ps)" by (simp add: map_of_eq_None_iff)
      then have "map_of (rev ps) k = None" by (simp only: map_of_eq_None_iff not_False_eq_True)
      with None show ?thesis by simp
    next
      case (Some v)
      then have "(k, v) \<in> set (rev ps)" by (auto dest: map_of_SomeD)
      moreover have "distinct (map fst (rev ps))" using assms by (metis distinct_rev rev_map)
      ultimately have "map_of (rev ps) k = Some v" by (rule map_of_is_SomeI[rotated])
      with Some show ?thesis by simp
    qed
  qed
  then show ?thesis by (simp add: map_of_assign)
qed

lemma assign_triv:
  "\<forall>(k, v)\<in>set ps. map_of a k = Some v \<Longrightarrow> assign a ps = a"
  unfolding assign_def
  by (induction ps arbitrary: a) (auto simp: update_triv)

lemma get_spread:
  "get (spread a (JObj kvs)) k = (case map_of kvs k of None \<Rightarrow> get a k | Some v \<Rightarrow> v)"
  by (simp add: get_def spread_def own_props_def map_of_assign_distinct map_of_clearjunk
        map_add_def split: option.splits)

lemma spread_idem: "spread (spread a (JObj kvs)) (JObj kvs) = spread a (JObj kvs)"
proof -
  let ?ps = "AList.clearjunk kvs"
  have "\<forall>(k, v)\<in>set ?ps. map_of (assign a ?ps) k = Some v"
    by (auto simp: map_of_assign_distinct map_add_def)
  then have "assign (assign a ?ps) ?ps = assign a ?ps"
    by (rule assign_triv)
  then show ?thesis by (simp add: spread_def own_props_def)
qed

lemma lower_ABC:
  "toLowerCase quiet_env ''ABC'' = ''abc''" "toLowerCase quiet_env ''abc'' = ''abc''"
  "toLowerCase quiet_env ''XYZ'' = ''xyz''" "toLowerCase quiet_env ''QRS'' = ''qrs''"
  by (simp_all add: quiet_env_def ascii_lower_def)

lemma stored_ids: "get alice ''id'' = JStr ''ABC''" "get carla ''id'' = JStr ''XYZ''"
  by (simp_all add: alice_def carla_def get_def)

subsection \<open>Update of an unknown id\<close>

text \<open>
  C6. When the \<open>id\<close> of the arguments matches no stored invoice, not even up to letter
  case (no stored id has the lower-case form of the argument's id), \<open>updateInvoice\<close>
  returns the error object \<open>{ error: message }\<close> with the not-found message and issues
  no store call at all: nothing is created and the store is left as it was.
\<close>

theorem update_unknown_id_is_error:
  assumes "read_prop args ''id'' = Inr (JStr s)"
    and "\<forall>iv\<in>set invoices. \<exists>t. get iv ''id'' = JStr t \<and> toLowerCase e t \<noteq> toLowerCase e s"
  shows "executeFunctionCall e invoices ''updateInvoice'' args
           = ([], Inr (Failure (NotFound (JStr s))))"
  using assms
  by (simp add: executeFunctionCall_def find_invoice_none not_found_def interpolate_def)

theorem update_unknown_id_is_error_witness:
  "read_prop (JObj [(''id'', JStr ''QRS''), (''amount'', JNum 7)]) ''id'' = Inr (JStr ''QRS'')
   \<and> get carla ''id'' = JStr ''XYZ'' \<and> toLowerCase quiet_env ''XYZ'' \<noteq> toLowerCase quiet_env ''QRS''
   \<and> get alice ''id'' = JStr ''ABC'' \<and> toLowerCase quiet_env ''ABC'' \<noteq> toLowerCase quiet_env ''QRS''
   \<and> executeFunctionCall quiet_env [carla, alice] ''updateInvoice''
         (JObj [(''id'', JStr ''QRS''), (''amount'', JNum 7)])
       = ([], Inr (Failure (NotFound (JStr ''QRS''))))"
proof -
  have a: "read_prop (JObj [(''id'', JStr ''QRS''), (''amount'', JNum 7)]) ''id'' = Inr (JStr ''QRS'')"
    by (simp add: read_prop_def get_def)
  have b: "\<forall>iv\<in>set [carla, alice].
             \<exists>t. get iv ''id'' = JStr t \<and> toLowerCase quiet_env t \<noteq> toLowerCase quiet_env ''QRS''"
    by (simp add: stored_ids lower_ABC)
  have c: "toLowerCase quiet_env ''XYZ'' \<noteq> toLowerCase quiet_env ''QRS''"
    "toLowerCase quiet_env ''ABC'' \<noteq> toLowerCase quiet_env ''QRS''"
    by (simp_all add: lower_ABC)
  from a c stored_ids update_unknown_id_is_error [OF a b] show ?thesis by simp
qed

subsection \<open>Reading by id ignores letter case\<close>

text \<open>
  C8. Let an invoice be stored under the id \<open>s\<close>, and let \<open>t\<close> differ from \<open>s\<close> only in
  letter case: the two have the same lower-case form. Then \<open>getInvoiceDetails\<close> called
  with \<open>s\<close> and called with \<open>t\<close> return the same record, namely the first stored
  invoice whose id matches \<open>s\<close> up to letter case; this is the invoice stored under
  \<open>s\<close> itself when no other stored id matches.
\<close>

theorem read_ignores_case:
  assumes "read_prop a ''id'' = Inr (JStr s)" and "read_prop b ''id'' = Inr (JStr t)"
    and "toLowerCase e s = toLowerCase e t"
    and "\<forall>iv\<in>set invoices. \<exists>u. get iv ''id'' = JStr u"
    and "iv \<in> set invoices" and "get iv ''id'' = JStr s"
  shows "\<exists>r. List.find (stored_under e s) invoices = Some r
           \<and> executeFunctionCall e invoices ''getInvoiceDetails'' a = ([], Inr (Details r))
           \<and> executeFunctionCall e invoices ''getInvoiceDetails'' b = ([], Inr (Details r))
           \<and> ((\<forall>x\<in>set invoices. stored_under e s x \<longrightarrow> x = iv) \<longrightarrow> r = iv)"
proof -
  have "stored_under e s iv"
    using assms(6) by (simp add: stored_under_def)
  with assms(5) obtain r where r: "List.find (stored_under e s) invoices = Some r"
    by (cases "List.find (stored_under e s) invoices") (auto simp: find_None_iff)
  then have in_set: "r \<in> set invoices" and under: "stored_under e s r"
    by (auto simp: find_Some_iff)
  have fa: "find_invoice e invoices a = Inr (Some r)"
    using find_invoice_find [OF assms(1,4), of e] r by simp
  have "find_invoice e invoices b = find_invoice e invoices a"
    using find_invoice_cong [OF assms(2,1), of e invoices] assms(3) by simp
  with fa have fb: "find_invoice e invoices b = Inr (Some r)" by simp
  from r fa fb in_set under show ?thesis
    by (auto simp: executeFunctionCall_def)
qed

theorem read_ignores_case_witness:
  "toLowerCase quiet_env ''ABC'' = toLowerCase quiet_env ''abc''
   \<and> get alice ''id'' = JStr ''ABC''
   \<and> List.find (stored_under quiet_env ''ABC'') [carla, alice] = Some alice
   \<and> executeFunctionCall quiet_env [carla, alice] ''getInvoiceDetails'' (JObj [(''id'', JStr ''ABC'')])
       = ([], Inr (Details alice))
   \<and> executeFunctionCall quiet_env [carla, alice] ''getInvoiceDetails'' (JObj [(''id'', JStr ''abc'')])
       = ([], Inr (Details alice))"
proof -
  have a: "read_prop (JObj [(''id'', JStr ''ABC'')]) ''id'' = Inr (JStr ''ABC'')"
    by (simp add: read_prop_def get_def)
  have b: "read_prop (JObj [(''id'', JStr ''abc'')]) ''id'' = Inr (JStr ''abc'')"
    by (simp add: read_prop_def get_def)
  have c: "toLowerCase quiet_env ''ABC'' = toLowerCase quiet_env ''abc''"
    by (simp add: lower_ABC)
  have d: "\<forall>iv\<in>set [carla, alice]. \<exists>u. get iv ''id'' = JStr u"
    by (simp add: stored_ids)
  have f: "alice \<in> set [carla, alice]" by simp
  have g: "List.find (stored_under quiet_env ''ABC'') [carla, alice] = Some alice"
    by (simp add: stored_under_def stored_ids lower_ABC)
  from read_ignores_case [OF a b c d f stored_ids(1)] g c stored_ids(1) show ?thesis by auto
qed

subsection \<open>Update is idempotent\<close>

text \<open>
  C9. Let a first \<open>updateInvoice\<close> find the record \<open>originalInvoice\<close> and write the
  merged record. When the same call is issued again with identical arguments, and finds
  the record as the first call wrote it (or still the original one, where the store has
  not replaced it), it writes that very record again: the record is in the same final
  state after the second call as after the first.
\<close>

theorem update_twice_same_record:
  assumes "find_invoice e invoices args = Inr (Some originalInvoice)"
    and "find_invoice e' invoices' args = Inr (Some found)"
    and "found = spread originalInvoice args \<or> found = originalInvoice"
  shows "fst (executeFunctionCall e invoices ''updateInvoice'' args)
           = [UpdateInvoice (spread originalInvoice args)]
         \<and> fst (executeFunctionCall e' invoices' ''updateInvoice'' args)
           = [UpdateInvoice (spread originalInvoice args)]"
proof -
  from assms(1) obtain kvs where "args = JObj kvs"
    using find_invoice_found read_prop_JStr by blast
  then have "spread (spread originalInvoice args) args = spread originalInvoice args"
    by (simp add: spread_idem)
  with assms(3) have "spread found args = spread originalInvoice args"
    by auto
  with assms(1,2) show ?thesis
    by (simp add: executeFunctionCall_def await_def)
qed

theorem update_twice_same_record_witness:
  "find_invoice quiet_env [alice] (JObj [(''id'', JStr ''ABC''), (''amount'', JNum 7)])
     = Inr (Some alice)
   \<and> find_invoice quiet_env [spread alice (JObj [(''id'', JStr ''ABC''), (''amount'', JNum 7)])]
         (JObj [(''id'', JStr ''ABC''), (''amount'', JNum 7)])
       = Inr (Some (spread alice (JObj [(''id'', JStr ''ABC''), (''amount'', JNum 7)])))
   \<and> fst (executeFunctionCall quiet_env [alice] ''updateInvoice''
              (JObj [(''id'', JStr ''ABC''), (''amount'', JNum 7)]))
       = [UpdateInvoice (spread alice (JObj [(''id'', JStr ''ABC''), (''amount'', JNum 7)]))]
   \<and> fst (executeFunctionCall quiet_env
              [spread alice (JObj [(''id'', JStr ''ABC''), (''amount'', JNum 7)])] ''updateInvoice''
              (JObj [(''id'', JStr ''ABC''), (''amount'', JNum 7)]))
       = [UpdateInvoice (spread alice (JObj [(''id'', JStr ''ABC''), (''amount'', JNum 7)]))]
   \<and> spread alice (JObj [(''id'', JStr ''ABC''), (''amount'', JNum 7)])
       = [(''id'', JStr ''ABC''), (''clientName'', JStr ''Alice''), (''amount'', JNum 7),
          (''issueDate'', JStr ''2024-03-01''), (''dueDate'', JStr ''2099-01-01''),
          (''status'', JStr ''Pendente''), (''observations'', JStr [])]"
proof -
  let ?args = "JObj [(''id'', JStr ''ABC''), (''amount'', JNum 7)]"
  have r: "read_prop ?args ''id'' = Inr (JStr ''ABC'')"
    by (simp add: read_prop_def get_def)
  have a: "find_invoice quiet_env [alice] ?args = Inr (Some alice)"
    by (simp add: stored_ids r)
  have g: "get (spread alice ?args) ''id'' = JStr ''ABC''"
    by (simp add: get_spread)
  have b: "find_invoice quiet_env [spread alice ?args] ?args = Inr (Some (spread alice ?args))"
    by (simp add: g r)
  have c: "spread alice ?args
             = [(''id'', JStr ''ABC''), (''clientName'', JStr ''Alice''), (''amount'', JNum 7),
                (''issueDate'', JStr ''2024-03-01''), (''dueDate'', JStr ''2099-01-01''),
                (''status'', JStr ''Pendente''), (''observations'', JStr [])]"
    by (simp add: spread_def assign_def own_props_def alice_def AList.delete_eq)
  from a b c update_twice_same_record [OF a b disjI1 [OF refl]]
  show ?thesis by simp
qed

subsection \<open>Update writes the id as the arguments spell it\<close>

text \<open>
  C10. When \<open>updateInvoice\<close> finds a stored invoice for the \<open>id\<close> of the arguments
  (the search ignores letter case), one record is handed to the store: field by field it
  holds the value of the argument object where the argument object has the field, and
  the value of the stored record everywhere else. So its \<open>id\<close> is the argument's
  spelling, also where the stored id is spelled with other letter case.
\<close>

theorem update_writes_argument_id:
  assumes "find_invoice e invoices args = Inr (Some originalInvoice)"
    and "args = JObj kvs" and "get kvs ''id'' = JStr s"
  shows "\<exists>written.
           fst (executeFunctionCall e invoices ''updateInvoice'' args) = [UpdateInvoice written]
         \<and> get written ''id'' = JStr s
         \<and> (\<forall>k. get written k
                  = (if k \<in> set (map fst kvs) then get kvs k else get originalInvoice k))"
proof -
  have field: "get (spread originalInvoice args) k
                 = (if k \<in> set (map fst kvs) then get kvs k else get originalInvoice k)" for k
  proof (cases "map_of kvs k")
    case None
    then have "k \<notin> set (map fst kvs)" by (simp add: map_of_eq_None_iff)
    with None assms(2) show ?thesis by (simp add: get_spread)
  next
    case (Some v)
    then have "k \<in> set (map fst kvs)" by (metis map_of_eq_None_iff option.distinct(1) set_map)
    moreover from Some have "get kvs k = v" by (simp add: get_def)
    moreover from Some assms(2) have "get (spread originalInvoice args) k = v"
      by (simp add: get_spread)
    ultimately show ?thesis by simp
  qed
  have "''id'' \<in> set (map fst kvs)"
  proof (rule ccontr)
    assume "''id'' \<notin> set (map fst kvs)"
    then have "map_of kvs ''id'' = None" by (simp add: map_of_eq_None_iff)
    with assms(3) show False by (simp add: get_def)
  qed
  with field [of "''id''"] assms(3) have "get (spread originalInvoice args) ''id'' = JStr s"
    by simp
  moreover from assms(1)
  have "fst (executeFunctionCall e invoices ''updateInvoice'' args)
          = [UpdateInvoice (spread originalInvoice args)]"
    by (simp add: executeFunctionCall_def await_def)
  ultimately show ?thesis using field by blast
qed

theorem update_writes_argument_id_witness:
  "find_invoice quiet_env [carla, alice]
       (JObj [(''id'', JStr ''abc''), (''amount'', JNum 7), (''note'', JStr ''x'')])
     = Inr (Some alice)
   \<and> get [(''id'', JStr ''abc''), (''amount'', JNum 7), (''note'', JStr ''x'')] ''id'' = JStr ''abc''
   \<and> get alice ''id'' = JStr ''ABC''
   \<and> fst (executeFunctionCall quiet_env [carla, alice] ''updateInvoice''
              (JObj [(''id'', JStr ''abc''), (''amount'', JNum 7), (''note'', JStr ''x'')]))
       = [UpdateInvoice
            [(''id'', JStr ''abc''), (''clientName'', JStr ''Alice''), (''amount'', JNum 7),
             (''issueDate'', JStr ''2024-03-01''), (''dueDate'', JStr ''2099-01-01''),
             (''status'', JStr ''Pendente''), (''observations'', JStr []),
             (''note'', JStr ''x'')]]"
proof -
  let ?kvs = "[(''id'', JStr ''abc''), (''amount'', JNum 7), (''note'', JStr ''x'')]"
  have r: "read_prop (JObj ?kvs) ''id'' = Inr (JStr ''abc'')"
    by (simp add: read_prop_def get_def)
  have a: "find_invoice quiet_env [carla, alice] (JObj ?kvs) = Inr (Some alice)"
    by (simp add: stored_ids r lower_ABC)
  have b: "get ?kvs ''id'' = JStr ''abc''"
    by (simp add: get_def)
  have c: "spread alice (JObj ?kvs)
             = [(''id'', JStr ''abc''), (''clientName'', JStr ''Alice''), (''amount'', JNum 7),
                (''issueDate'', JStr ''2024-03-01''), (''dueDate'', JStr ''2099-01-01''),
                (''status'', JStr ''Pendente''), (''observations'', JStr []),
                (''note'', JStr ''x'')]"
    by (simp add: spread_def assign_def own_props_def alice_def AList.delete_eq)
  from update_writes_argument_id [OF a refl b]
  obtain written where
    w: "fst (executeFunctionCall quiet_env [carla, alice] ''updateInvoice'' (JObj ?kvs))
          = [UpdateInvoice written]"
    by blast
  have "fst (executeFunctionCall quiet_env [carla, alice] ''updateInvoice'' (JObj ?kvs))
          = [UpdateInvoice (spread alice (JObj ?kvs))]"
    using a by (simp add: executeFunctionCall_def await_def)
  with w c a b stored_ids(1) show ?thesis by simp
qed

subsection \<open>Listing\<close>

text \<open>
  C7, as stated, fails when the call carries no arguments at all (\<open>args\<close> is
  \<open>undefined\<close>): no filter is given, and \<open>args.status\<close> throws a \<open>TypeError\<close> instead of the
  full list being returned.
\<close>

theorem list_without_arguments_raises_counterexample:
  "executeFunctionCall quiet_env [carla, alice] ''listInvoices'' JUndefined = ([], Inl TypeError)"
  by (simp add: executeFunctionCall_def read_prop_def)

text \<open>
  C7, as the code has it. On a store that is not empty, and with arguments that are
  neither \<open>undefined\<close> nor \<open>null\<close>: \<open>listInvoices\<close> with a status filter that no invoice
  matches returns the message object naming the filter (the filter being a value that
  can be converted to a string, as every string, number and boolean is); with no status
  filter it returns every invoice, in order, reduced to the five fields \<open>id\<close>,
  \<open>clientName\<close>, \<open>amount\<close>, \<open>status\<close> and \<open>dueDate\<close>; and it never returns an empty
  list. With arguments that are \<open>undefined\<close> or \<open>null\<close> it throws a \<open>TypeError\<close>.
\<close>

theorem list_contract:
  assumes "invoices \<noteq> []"
  shows "(args \<noteq> JUndefined \<and> args \<noteq> JNull \<and> truthy (val args ''status'')
            \<and> \<not> to_string_throws (val args ''status'')
            \<and> list_all (\<lambda>iv. \<not> strict_eq (get iv ''status'') (val args ''status'')) invoices
            \<longrightarrow> executeFunctionCall e invoices ''listInvoices'' args
                  = ([], Inr (Info (NoneWithStatus (val args ''status'')))))
       \<and> (args \<noteq> JUndefined \<and> args \<noteq> JNull \<and> \<not> truthy (val args ''status'')
            \<longrightarrow> executeFunctionCall e invoices ''listInvoices'' args
                  = ([], Inr (Summary
                       (map (\<lambda>iv. [(''id'', get iv ''id''), (''clientName'', get iv ''clientName''),
                                   (''amount'', get iv ''amount''), (''status'', get iv ''status''),
                                   (''dueDate'', get iv ''dueDate'')]) invoices))))
       \<and> snd (executeFunctionCall e invoices ''listInvoices'' args) \<noteq> Inr (Summary [])
       \<and> (args = JUndefined \<or> args = JNull
            \<longrightarrow> executeFunctionCall e invoices ''listInvoices'' args = ([], Inl TypeError))"
proof (intro conjI impI)
  assume a: "args \<noteq> JUndefined \<and> args \<noteq> JNull \<and> truthy (val args ''status'')
            \<and> \<not> to_string_throws (val args ''status'')
            \<and> list_all (\<lambda>iv. \<not> strict_eq (get iv ''status'') (val args ''status'')) invoices"
  then have "filter (\<lambda>iv. strict_eq (get iv ''status'') (val args ''status'')) invoices = []"
    by (simp add: filter_empty_conv list_all_iff)
  with a show "executeFunctionCall e invoices ''listInvoices'' args
                 = ([], Inr (Info (NoneWithStatus (val args ''status''))))"
    by (simp add: executeFunctionCall_def read_prop_def interpolate_def)
next
  assume "args \<noteq> JUndefined \<and> args \<noteq> JNull \<and> \<not> truthy (val args ''status'')"
  with assms show "executeFunctionCall e invoices ''listInvoices'' args
                 = ([], Inr (Summary
                      (map (\<lambda>iv. [(''id'', get iv ''id''), (''clientName'', get iv ''clientName''),
                                  (''amount'', get iv ''amount''), (''status'', get iv ''status''),
                                  (''dueDate'', get iv ''dueDate'')]) invoices)))"
    by (simp add: executeFunctionCall_def read_prop_def project_def)
next
  show "snd (executeFunctionCall e invoices ''listInvoices'' args) \<noteq> Inr (Summary [])"
    by (auto simp: executeFunctionCall_def Let_def read_prop_def interpolate_def
          split: sum.splits)
next
  assume "args = JUndefined \<or> args = JNull"
  then show "executeFunctionCall e invoices ''listInvoices'' args = ([], Inl TypeError)"
    by (auto simp: executeFunctionCall_def read_prop_def)
qed

theorem list_contract_witness:
  "[carla, alice] \<noteq> []
   \<and> truthy (val (JObj [(''status'', JStr ''Vencido'')]) ''status'')
   \<and> list_all (\<lambda>iv. \<not> strict_eq (get iv ''status'') (val (JObj [(''status'', JStr ''Vencido'')]) ''status''))
         [carla, alice]
   \<and> executeFunctionCall quiet_env [carla, alice] ''listInvoices'' (JObj [(''status'', JStr ''Vencido'')])
       = ([], Inr (Info (NoneWithStatus (JStr ''Vencido''))))
   \<and> \<not> truthy (val (JObj []) ''status'')
   \<and> executeFunctionCall quiet_env [carla, alice] ''listInvoices'' (JObj [])
       = ([], Inr (Summary
            [[(''id'', JStr ''XYZ''), (''clientName'', JStr ''Carla''), (''amount'', JNum 250),
              (''status'', JStr ''Pago''), (''dueDate'', JStr ''2024-04-01'')],
             [(''id'', JStr ''ABC''), (''clientName'', JStr ''Alice''), (''amount'', JNum 100),
              (''status'', JStr ''Pendente''), (''dueDate'', JStr ''2099-01-01'')]]))
   \<and> executeFunctionCall quiet_env [carla, alice] ''listInvoices'' JNull = ([], Inl TypeError)"
proof -
  have a: "[carla, alice] \<noteq> []" by simp
  have v: "get [(''status'', JStr ''Vencido'')] ''status'' = JStr ''Vencido''"
    "get [] ''status'' = JUndefined"
    by (simp_all add: get_def)
  have c: "list_all (\<lambda>iv. \<not> strict_eq (get iv ''status'') (JStr ''Vencido'')) [carla, alice]"
    by (simp add: alice_def carla_def get_def)
  have rows:
    "get carla ''id'' = JStr ''XYZ''" "get carla ''clientName'' = JStr ''Carla''"
    "get carla ''amount'' = JNum 250" "get carla ''status'' = JStr ''Pago''"
    "get carla ''dueDate'' = JStr ''2024-04-01''"
    "get alice ''id'' = JStr ''ABC''" "get alice ''clientName'' = JStr ''Alice''"
    "get alice ''amount'' = JNum 100" "get alice ''status'' = JStr ''Pendente''"
    "get alice ''dueDate'' = JStr ''2099-01-01''"
    by (simp_all add: alice_def carla_def get_def)
  note filtered = list_contract [OF a, of "JObj [(''status'', JStr ''Vencido'')]" quiet_env]
  note plain = list_contract [OF a, of "JObj []" quiet_env]
  note absent = list_contract [OF a, of JNull quiet_env]
  from filtered c
  have 1: "executeFunctionCall quiet_env [carla, alice] ''listInvoices'' (JObj [(''status'', JStr ''Vencido'')])
             = ([], Inr (Info (NoneWithStatus (JStr ''Vencido''))))"
    by (simp add: v)
  from plain
  have 2: "executeFunctionCall quiet_env [carla, alice] ''listInvoices'' (JObj [])
             = ([], Inr (Summary
                  [[(''id'', JStr ''XYZ''), (''clientName'', JStr ''Carla''), (''amount'', JNum 250),
                    (''status'', JStr ''Pago''), (''dueDate'', JStr ''2024-04-01'')],
                   [(''id'', JStr ''ABC''), (''clientName'', JStr ''Alice''), (''amount'', JNum 100),
                    (''status'', JStr ''Pendente''), (''dueDate'', JStr ''2099-01-01'')]]))"
    by (simp add: v rows)
  from absent
  have 3: "executeFunctionCall quiet_env [carla, alice] ''listInvoices'' JNull = ([], Inl TypeError)"
    by simp
  from a c 1 2 3 show ?thesis by (simp add: v)
qed

subsection \<open>createInvoice on the example data\<close>

lemma split_14_march: "split_on CHR ''-'' ''2024-03-14'' = [''2024'', ''03'', ''14'']"
  by simp

lemma numbers_14_march: "js_Number quiet_env ''2024'' = Some 2024" "js_Number quiet_env ''03'' = Some 3"
  "js_Number quiet_env ''14'' = Some 14"
  by (simp_all add: js_Number_def is_digit_def decimal_def)

lemma due_14_march: "new_Date late_evening (Some 2024) (Some 2) (Some 14) = Some 1710385200000"
  by (simp add: new_Date_def ToIntegerOrInfinity_def MakeDay_def DayFromYear_def month_start_def
        InLeapYear_def msPerDay_def TimeClip_def late_evening_def)

lemma today_late_evening: "today_midnight late_evening = Some 1710385200000"
  by (simp add: today_midnight_def MakeDay_def DayFromYear_def month_start_def
        InLeapYear_def msPerDay_def TimeClip_def late_evening_def)

lemma iso_late_evening: "iso_date (utc_today late_evening) = ''2024-03-15''"
  "iso_date (local_today late_evening) = ''2024-03-14''"
  by (simp_all add: iso_date_def pad2_def pad4_def digit_char_def late_evening_def)

lemma create_14_march:
  "executeFunctionCall quiet_env invoices ''createInvoice'' bob_due_today
     = ([AddInvoice [(''clientName'', JStr ''Bob''), (''amount'', JNum 5),
                     (''issueDate'', JStr ''2024-03-15''), (''dueDate'', JStr ''2024-03-14''),
                     (''status'', JStr ''Pendente''), (''observations'', JStr [])]],
        Inr (Created (JStr ''Bob'') (JNum 5)))"
proof -
  have n: "now quiet_env = late_evening" "store_rejects quiet_env = (\<lambda>c. None)"
    by (simp_all add: quiet_env_def)
  show ?thesis
    by (simp add: executeFunctionCall_def bob_due_today_def read_prop_def get_def elem_def
          dueDateObj_def date_lt_def await_def n split_14_march numbers_14_march due_14_march
          today_late_evening iso_late_evening InvoiceStatus_Pendente_def)
qed

subsection \<open>What the dispatcher raises\<close>

lemma val_JStr_read_prop: "val args k = JStr s \<Longrightarrow> read_prop args k = Inr (JStr s)"
  by (cases args) (auto simp: read_prop_def)

lemma find_invoice_total:
  assumes "val args ''id'' = JStr s" and "ids_are_strings invoices"
  shows "\<exists>r. find_invoice e invoices args = Inr r"
  using assms(2)
proof (induction invoices)
  case Nil
  then show ?case by simp
next
  case (Cons iv rest)
  then obtain u where "get iv ''id'' = JStr u"
    by (auto simp: ids_are_strings_def split: jsval.splits)
  with Cons assms(1) show ?case
    by (auto simp: ids_are_strings_def val_JStr_read_prop)
qed

lemma find_invoice_throws: "find_invoice e invoices args = Inl err \<Longrightarrow> err = TypeError"
proof (induction invoices)
  case Nil
  then show ?case by simp
next
  case (Cons iv rest)
  then show ?case
    by (cases "get iv ''id''"; cases args; cases "val args ''id''")
       (auto simp: read_prop_def split: if_splits)
qed

lemma await_cases:
  "await e c r = (calls, out) \<Longrightarrow>
     calls = [c] \<and> (case out of Inl err \<Rightarrow> store_rejects e c = Some err | Inr r' \<Rightarrow> store_rejects e c = None \<and> r' = r)"
  by (auto simp: await_def split: option.splits)

lemma not_found_cases:
  "not_found args = (calls, out) \<Longrightarrow> calls = [] \<and> (case out of Inl err \<Rightarrow> err = TypeError | Inr r \<Rightarrow> True)"
  by (auto simp: not_found_def read_prop_def interpolate_def split: if_splits)

lemma raises_cases:
  assumes "executeFunctionCall e invoices name args = (calls, Inl err)"
  shows "(calls = [] \<and> err = TypeError) \<or> (\<exists>c. calls = [c] \<and> store_rejects e c = Some err)"
proof -
  consider (create) "name = ''createInvoice''"
    | (get) "name = ''getInvoiceDetails''"
    | (update) "name = ''updateInvoice''"
    | (delete) "name = ''deleteInvoice''"
    | (list) "name = ''listInvoices''"
    | (other) "name \<noteq> ''createInvoice''" "name \<noteq> ''getInvoiceDetails''" "name \<noteq> ''updateInvoice''"
        "name \<noteq> ''deleteInvoice''" "name \<noteq> ''listInvoices''"
    by blast
  then show ?thesis
  proof cases
    case create
    with assms show ?thesis
      by (auto simp: executeFunctionCall_def read_prop_def Let_def
            split: if_splits jsval.splits dest!: await_cases)
  next
    case get
    with assms show ?thesis
      by (auto simp: executeFunctionCall_def split: sum.splits option.splits
            dest!: find_invoice_throws not_found_cases)
  next
    case update
    with assms show ?thesis
      by (auto simp: executeFunctionCall_def split: sum.splits option.splits
            dest!: find_invoice_throws not_found_cases await_cases)
  next
    case delete
    with assms show ?thesis
      by (auto simp: executeFunctionCall_def split: sum.splits option.splits
            dest!: find_invoice_throws not_found_cases await_cases)
  next
    case list
    with assms show ?thesis
      by (auto simp: executeFunctionCall_def read_prop_def Let_def interpolate_def
            split: if_splits)
  next
    case other
    with assms show ?thesis
      by (simp add: executeFunctionCall_def)
  qed
qed

lemma returns_when_present:
  assumes acc: "\<forall>c. store_rejects e c = None" and ids: "ids_are_strings invoices"
    and req: "required_present name args"
  shows "\<exists>r. snd (executeFunctionCall e invoices name args) = Inr r"
proof -
  have by_id: "\<exists>s. val args ''id'' = JStr s"
    if "name = ''getInvoiceDetails'' \<or> name = ''updateInvoice'' \<or> name = ''deleteInvoice''"
    using that req by (auto simp: required_present_def split: jsval.splits)
  have nf: "\<exists>r. snd (not_found args) = Inr r" if "val args ''id'' = JStr s" for s
    using that by (simp add: not_found_def val_JStr_read_prop interpolate_def)
  have aw: "snd (await e c r) = Inr r" for c r
    using acc by (simp add: await_def)
  consider (create) "name = ''createInvoice''"
    | (get) "name = ''getInvoiceDetails''"
    | (update) "name = ''updateInvoice''"
    | (delete) "name = ''deleteInvoice''"
    | (list) "name = ''listInvoices''"
    | (other) "name \<noteq> ''createInvoice''" "name \<noteq> ''getInvoiceDetails''" "name \<noteq> ''updateInvoice''"
        "name \<noteq> ''deleteInvoice''" "name \<noteq> ''listInvoices''"
    by blast
  then show ?thesis
  proof cases
    case create
    with req obtain s where "val args ''dueDate'' = JStr s"
      by (auto simp: required_present_def split: jsval.splits)
    then have "read_prop args ''dueDate'' = Inr (JStr s)" by (rule val_JStr_read_prop)
    with create aw show ?thesis
      by (simp add: executeFunctionCall_def Let_def)
  next
    case get
    with by_id obtain s where s: "val args ''id'' = JStr s" by blast
    with ids obtain r where "find_invoice e invoices args = Inr r"
      using find_invoice_total by blast
    with get nf [OF s] show ?thesis
      by (cases r) (auto simp: executeFunctionCall_def)
  next
    case update
    with by_id obtain s where s: "val args ''id'' = JStr s" by blast
    with ids obtain r where "find_invoice e invoices args = Inr r"
      using find_invoice_total by blast
    with update nf [OF s] aw show ?thesis
      by (cases r) (auto simp: executeFunctionCall_def)
  next
    case delete
    with by_id obtain s where s: "val args ''id'' = JStr s" by blast
    with ids obtain r where "find_invoice e invoices args = Inr r"
      using find_invoice_total by blast
    with delete nf [OF s] aw show ?thesis
      by (cases r) (auto simp: executeFunctionCall_def)
  next
    case list
    with req show ?thesis
      by (auto simp: executeFunctionCall_def required_present_def read_prop_def Let_def
            interpolate_def)
  next
    case other
    then show ?thesis
      by (simp add: executeFunctionCall_def)
  qed
qed

lemma create_without_dueDate:
  assumes "\<not> is_string (val args ''dueDate'')"
  shows "executeFunctionCall e invoices ''createInvoice'' args = ([], Inl TypeError)"
  using assms
  by (cases "val args ''dueDate''")
     (auto simp: executeFunctionCall_def read_prop_def is_string_def)

lemma find_without_id:
  assumes "\<not> is_string (val args ''id'')" and "invoices \<noteq> []" and "ids_are_strings invoices"
  shows "find_invoice e invoices args = Inl TypeError"
proof -
  from assms(2) obtain iv rest where inv: "invoices = iv # rest" by (cases invoices) auto
  with assms(3) obtain u where "get iv ''id'' = JStr u"
    by (auto simp: ids_are_strings_def split: jsval.splits)
  with inv assms(1) show ?thesis
    by (cases "val args ''id''") (auto simp: read_prop_def is_string_def)
qed

lemma create_adds_unvalidated:
  assumes "val args ''dueDate'' = JStr s"
  shows "\<exists>record. fst (executeFunctionCall e invoices ''createInvoice'' args) = [AddInvoice record]
           \<and> get record ''clientName'' = val args ''clientName''
           \<and> get record ''amount'' = val args ''amount''"
  using val_JStr_read_prop [OF assms]
  by (simp add: executeFunctionCall_def Let_def await_def get_def)

text \<open>
  C1, as stated, fails: \<open>createInvoice\<close> without a \<open>dueDate\<close> does not return
  \<open>{ error: message }\<close>, it throws a \<open>TypeError\<close> (from \<open>args.dueDate.split\<close>).
\<close>

theorem missing_dueDate_raises_counterexample:
  "snd (executeFunctionCall quiet_env [] ''createInvoice'' bob_no_due) = Inl TypeError"
  by (simp add: executeFunctionCall_def bob_no_due_def read_prop_def get_def)

text \<open>
  C1, as the code has it. \<open>executeFunctionCall\<close> returns a value, without throwing,
  whenever the store accepts the call it awaits, every stored id is a string and the
  field it dereferences is there; a name that is none of the five operations yields the
  error object with the unknown-function message, whatever the arguments. It validates
  nothing. What it throws is either a \<open>TypeError\<close> of its own, raised before any store
  call is issued, or what the awaited store call rejected with. Without a string \<open>dueDate\<close>, \<open>createInvoice\<close> throws a
  \<open>TypeError\<close>; without a string \<open>id\<close>, and on a store that is not empty, so do
  \<open>getInvoiceDetails\<close>, \<open>updateInvoice\<close> and \<open>deleteInvoice\<close>. With a string
  \<open>dueDate\<close>, \<open>createInvoice\<close> hands the record to the store with whatever
  \<open>clientName\<close> and \<open>amount\<close> the arguments hold, \<open>undefined\<close> included.
\<close>

theorem dispatcher_without_validation:
  "((\<forall>c. store_rejects e c = None) \<and> ids_are_strings invoices \<and> required_present name args
      \<longrightarrow> (\<exists>r. snd (executeFunctionCall e invoices name args) = Inr r))
   \<and> (\<forall>err. snd (executeFunctionCall e invoices name args) = Inl err
      \<longrightarrow> (fst (executeFunctionCall e invoices name args) = [] \<and> err = TypeError)
          \<or> (\<exists>c. fst (executeFunctionCall e invoices name args) = [c] \<and> store_rejects e c = Some err))
   \<and> (\<not> is_string (val args ''dueDate'')
      \<longrightarrow> executeFunctionCall e invoices ''createInvoice'' args = ([], Inl TypeError))
   \<and> (\<not> is_string (val args ''id'') \<and> invoices \<noteq> [] \<and> ids_are_strings invoices
      \<longrightarrow> executeFunctionCall e invoices ''getInvoiceDetails'' args = ([], Inl TypeError)
          \<and> executeFunctionCall e invoices ''updateInvoice'' args = ([], Inl TypeError)
          \<and> executeFunctionCall e invoices ''deleteInvoice'' args = ([], Inl TypeError))
   \<and> (\<forall>s. val args ''dueDate'' = JStr s
      \<longrightarrow> (\<exists>record. fst (executeFunctionCall e invoices ''createInvoice'' args) = [AddInvoice record]
             \<and> get record ''clientName'' = val args ''clientName''
             \<and> get record ''amount'' = val args ''amount''))
   \<and> (name \<noteq> ''createInvoice'' \<and> name \<noteq> ''getInvoiceDetails'' \<and> name \<noteq> ''updateInvoice''
        \<and> name \<noteq> ''deleteInvoice'' \<and> name \<noteq> ''listInvoices''
      \<longrightarrow> executeFunctionCall e invoices name args = ([], Inr (Failure (UnknownFunction name))))"
proof (intro conjI impI allI)
  assume "(\<forall>c. store_rejects e c = None) \<and> ids_are_strings invoices \<and> required_present name args"
  then show "\<exists>r. snd (executeFunctionCall e invoices name args) = Inr r"
    using returns_when_present by blast
next
  fix err
  assume "snd (executeFunctionCall e invoices name args) = Inl err"
  then have "executeFunctionCall e invoices name args
               = (fst (executeFunctionCall e invoices name args), Inl err)"
    by (metis prod.collapse)
  then show "(fst (executeFunctionCall e invoices name args) = [] \<and> err = TypeError)
          \<or> (\<exists>c. fst (executeFunctionCall e invoices name args) = [c] \<and> store_rejects e c = Some err)"
    by (rule raises_cases)
next
  assume "\<not> is_string (val args ''dueDate'')"
  then show "executeFunctionCall e invoices ''createInvoice'' args = ([], Inl TypeError)"
    by (rule create_without_dueDate)
next
  assume a: "\<not> is_string (val args ''id'') \<and> invoices \<noteq> [] \<and> ids_are_strings invoices"
  then have f: "find_invoice e invoices args = Inl TypeError"
    using find_without_id by blast
  show "executeFunctionCall e invoices ''getInvoiceDetails'' args = ([], Inl TypeError)"
    using f by (simp add: executeFunctionCall_def)
  show "executeFunctionCall e invoices ''updateInvoice'' args = ([], Inl TypeError)"
    using f by (simp add: executeFunctionCall_def)
  show "executeFunctionCall e invoices ''deleteInvoice'' args = ([], Inl TypeError)"
    using f by (simp add: executeFunctionCall_def)
next
  fix s
  assume "val args ''dueDate'' = JStr s"
  then show "\<exists>record. fst (executeFunctionCall e invoices ''createInvoice'' args) = [AddInvoice record]
             \<and> get record ''clientName'' = val args ''clientName''
             \<and> get record ''amount'' = val args ''amount''"
    by (rule create_adds_unvalidated)
next
  assume "name \<noteq> ''createInvoice'' \<and> name \<noteq> ''getInvoiceDetails'' \<and> name \<noteq> ''updateInvoice''
        \<and> name \<noteq> ''deleteInvoice'' \<and> name \<noteq> ''listInvoices''"
  then show "executeFunctionCall e invoices name args = ([], Inr (Failure (UnknownFunction name)))"
    by (simp add: executeFunctionCall_def)
qed

theorem dispatcher_without_validation_witness:
  "(\<forall>c. store_rejects quiet_env c = None) \<and> ids_are_strings [alice]
   \<and> required_present ''createInvoice'' bob_due_today
   \<and> val bob_due_today ''dueDate'' = JStr ''2024-03-14''
   \<and> executeFunctionCall quiet_env [alice] ''createInvoice'' bob_due_today
       = ([AddInvoice [(''clientName'', JStr ''Bob''), (''amount'', JNum 5),
                       (''issueDate'', JStr ''2024-03-15''), (''dueDate'', JStr ''2024-03-14''),
                       (''status'', JStr ''Pendente''), (''observations'', JStr [])]],
          Inr (Created (JStr ''Bob'') (JNum 5)))
   \<and> \<not> is_string (val bob_no_due ''dueDate'')
   \<and> snd (executeFunctionCall quiet_env [alice] ''createInvoice'' bob_no_due) = Inl TypeError
   \<and> fst (executeFunctionCall quiet_env [alice] ''createInvoice'' bob_no_due) = []
   \<and> \<not> is_string (val bob_no_due ''id'') \<and> [alice] \<noteq> []
   \<and> executeFunctionCall quiet_env [alice] ''updateInvoice'' bob_no_due = ([], Inl TypeError)
   \<and> executeFunctionCall quiet_env [alice] ''sendEmail'' bob_due_today
       = ([], Inr (Failure (UnknownFunction ''sendEmail'')))"
proof -
  have a: "\<forall>c. store_rejects quiet_env c = None" by (simp add: quiet_env_def)
  have b: "ids_are_strings [alice]" by (simp add: ids_are_strings_def alice_def get_def)
  have c: "required_present ''createInvoice'' bob_due_today"
    by (simp add: required_present_def bob_due_today_def get_def)
  have d: "val bob_due_today ''dueDate'' = JStr ''2024-03-14''"
    by (simp add: bob_due_today_def get_def)
  have f: "\<not> is_string (val bob_no_due ''dueDate'')"
    by (simp add: bob_no_due_def get_def is_string_def)
  have g: "\<not> is_string (val bob_no_due ''id'')"
    by (simp add: bob_no_due_def get_def is_string_def)
  have h: "[alice] \<noteq> []" by simp
  note full = dispatcher_without_validation [of quiet_env "[alice]" "''createInvoice''" bob_due_today]
  note none = dispatcher_without_validation [of quiet_env "[alice]" "''createInvoice''" bob_no_due]
  from full a b c have 1: "\<exists>r. snd (executeFunctionCall quiet_env [alice] ''createInvoice'' bob_due_today) = Inr r"
    by blast
  have 2: "executeFunctionCall quiet_env [alice] ''createInvoice'' bob_due_today
       = ([AddInvoice [(''clientName'', JStr ''Bob''), (''amount'', JNum 5),
                       (''issueDate'', JStr ''2024-03-15''), (''dueDate'', JStr ''2024-03-14''),
                       (''status'', JStr ''Pendente''), (''observations'', JStr [])]],
          Inr (Created (JStr ''Bob'') (JNum 5)))"
    by (rule create_14_march)
  from none f have 3: "executeFunctionCall quiet_env [alice] ''createInvoice'' bob_no_due = ([], Inl TypeError)"
    by blast
  from none g h b have 4: "executeFunctionCall quiet_env [alice] ''updateInvoice'' bob_no_due = ([], Inl TypeError)"
    by blast
  from dispatcher_without_validation [of quiet_env "[alice]" "''sendEmail''" bob_due_today]
  have 5: "executeFunctionCall quiet_env [alice] ''sendEmail'' bob_due_today
             = ([], Inr (Failure (UnknownFunction ''sendEmail'')))"
    by simp
  from a b c d f g h 1 2 3 4 5 show ?thesis by simp
qed

subsection \<open>The record createInvoice adds\<close>

text \<open>
  The record handed to the store, for any arguments with a string \<open>dueDate\<close>: the
  \<open>issueDate\<close> is the date of the clock in UTC, and omitted (or otherwise falsy)
  observations become the empty string.
\<close>

lemma create_record:
  assumes "val args ''dueDate'' = JStr s"
  shows "fst (executeFunctionCall e invoices ''createInvoice'' args)
           = [AddInvoice
                [(''clientName'', val args ''clientName''),
                 (''amount'', val args ''amount''),
                 (''issueDate'', JStr (iso_date (utc_today (now e)))),
                 (''dueDate'', JStr s),
                 (''status'', if date_lt (dueDateObj e s) (today_midnight (now e))
                              then InvoiceStatus_Vencido else InvoiceStatus_Pendente),
                 (''observations'', if truthy (val args ''observations'')
                                    then val args ''observations'' else JStr [])]]"
  using val_JStr_read_prop [OF assms]
  by (simp add: executeFunctionCall_def Let_def await_def)

text \<open>
  A due date written \<open>YYYY-MM-DD\<close> is parsed into its three numbers, and the day
  number \<open>MakeDay\<close> gives to a date that exists grows with the date.
\<close>

lemma digit_char_props:
  "digit_char n \<noteq> CHR ''-''" "is_digit (digit_char n)"
  "(of_char (digit_char n) :: nat) - 48 = n mod 10"
proof -
  have "n mod 10 = 0 \<or> n mod 10 = 1 \<or> n mod 10 = 2 \<or> n mod 10 = 3 \<or> n mod 10 = 4
      \<or> n mod 10 = 5 \<or> n mod 10 = 6 \<or> n mod 10 = 7 \<or> n mod 10 = 8 \<or> n mod 10 = 9"
    by presburger
  then show "digit_char n \<noteq> CHR ''-''" "is_digit (digit_char n)"
    "(of_char (digit_char n) :: nat) - 48 = n mod 10"
    by (elim disjE; simp add: digit_char_def is_digit_def)+
qed

lemma split_date_string: "split_on CHR ''-'' (date_string y m d) = [pad4 y, pad2 m, pad2 d]"
  by (simp add: date_string_def pad4_def pad2_def digit_char_props)

lemma decimal_pad2:
  assumes "m < 100"
  shows "decimal (pad2 m) = m"
proof -
  have small: "m div 10 < 10"
    using assms by (intro less_mult_imp_div_less) simp
  have "decimal (pad2 m) = 10 * (m div 10 mod 10) + m mod 10"
    by (simp add: decimal_def pad2_def digit_char_props)
  also have "\<dots> = 10 * (m div 10) + m mod 10"
    using small by simp
  also have "\<dots> = m"
    by (rule mult_div_mod_eq)
  finally show ?thesis .
qed

lemma decimal_pad4:
  assumes "y < 10000"
  shows "decimal (pad4 y) = y"
proof -
  define a where "a = y div 10"
  define b where "b = a div 10"
  define c where "c = b div 10"
  have e: "y div 100 = b" "y div 1000 = c"
    by (simp_all add: a_def b_def c_def div_mult2_eq)
  have small: "c < 10"
    unfolding e(2)[symmetric] using assms by (intro less_mult_imp_div_less) simp
  have "decimal (pad4 y) = 10 * (10 * (10 * (c mod 10) + b mod 10) + a mod 10) + y mod 10"
    by (simp add: decimal_def pad4_def digit_char_props e) (simp add: a_def)
  also have "10 * (c mod 10) + b mod 10 = b"
    using small by (simp add: c_def)
  also have "10 * b + a mod 10 = a"
    by (simp add: b_def)
  also have "10 * a + y mod 10 = y"
    by (simp add: a_def)
  finally show ?thesis .
qed

lemma js_Number_pad:
  "y < 10000 \<Longrightarrow> js_Number e (pad4 y) = Some (real y)"
  "m < 100 \<Longrightarrow> js_Number e (pad2 m) = Some (real m)"
  by (simp_all add: js_Number_def decimal_pad4 decimal_pad2)
     (simp_all add: pad4_def pad2_def digit_char_props)

lemma ToInteger_of_nat: "ToIntegerOrInfinity (real n) = int n" "ToIntegerOrInfinity (real n - 1) = int n - 1"
proof -
  show "ToIntegerOrInfinity (real n) = int n" by (simp add: ToIntegerOrInfinity_def)
  have "real n - 1 = real_of_int (int n - 1)" by simp
  then show "ToIntegerOrInfinity (real n - 1) = int n - 1"
    unfolding ToIntegerOrInfinity_def by (simp only: floor_of_int ceiling_of_int if_cancel)
qed

lemma dueDateObj_date_string:
  assumes "y < 10000" and "m < 100" and "d < 100"
  shows "dueDateObj e (date_string y m d)
           = TimeClip (MakeDay (if y \<le> 99 then 1900 + int y else int y) (int m - 1) (int d) * msPerDay
                        - tza (now e))"
  using assms
  by (simp add: dueDateObj_def split_date_string js_Number_pad elem_def new_Date_def
        ToInteger_of_nat Let_def)

lemma month_cases:
  assumes "1 \<le> m" and "m \<le> (12::int)"
  shows "m = 1 \<or> m = 2 \<or> m = 3 \<or> m = 4 \<or> m = 5 \<or> m = 6 \<or> m = 7 \<or> m = 8 \<or> m = 9
       \<or> m = 10 \<or> m = 11 \<or> m = 12"
  using assms by arith

lemma MakeDay_in_year:
  assumes "1 \<le> m" and "m \<le> 12"
  shows "MakeDay y (m - 1) d = DayFromYear y + month_start y (m - 1) + d - 1"
proof -
  have "(m - 1) div 12 = 0" "(m - 1) mod 12 = m - 1"
    using assms by simp_all
  then show ?thesis by (simp add: MakeDay_def)
qed

lemma div_succ:
  fixes x k :: int
  assumes "0 < k"
  shows "(x + 1) div k = x div k + (if (x + 1) mod k = 0 then 1 else 0)"
proof -
  define q r where "q = x div k" and "r = x mod k"
  have x: "x = k * q + r" by (simp add: q_def r_def)
  have r: "0 \<le> r" "r < k" using assms by (simp_all add: r_def)
  show ?thesis
  proof (cases "r + 1 < k")
    case True
    have e: "x + 1 = k * q + (r + 1)" using x by simp
    have "(x + 1) div k = q"
      using e by (rule int_div_pos_eq) (use r True in simp_all)
    moreover have "(x + 1) mod k = r + 1"
      using e by (rule int_mod_pos_eq) (use r True in simp_all)
    ultimately show ?thesis using r by (simp add: q_def)
  next
    case False
    with r have "r + 1 = k" by simp
    then have e: "x + 1 = k * (q + 1) + 0" using x by (simp add: algebra_simps)
    have "(x + 1) div k = q + 1"
      using e by (rule int_div_pos_eq) (use assms in simp_all)
    moreover have "(x + 1) mod k = 0"
      using e by (rule int_mod_pos_eq) (use assms in simp_all)
    ultimately show ?thesis by (simp add: q_def)
  qed
qed

lemma dvd_chain:
  fixes y :: int
  shows "y mod 100 = 0 \<Longrightarrow> y mod 4 = 0" and "y mod 400 = 0 \<Longrightarrow> y mod 100 = 0"
proof -
  have a: "(4::int) dvd 100" and b: "(100::int) dvd 400" by simp_all
  show "y mod 100 = 0 \<Longrightarrow> y mod 4 = 0"
    using dvd_trans [OF a, of y] by (simp add: mod_eq_0_iff_dvd)
  show "y mod 400 = 0 \<Longrightarrow> y mod 100 = 0"
    using dvd_trans [OF b, of y] by (simp add: mod_eq_0_iff_dvd)
qed

lemma mod_shift: "(k::int) dvd c \<Longrightarrow> (y - c) mod k = 0 \<longleftrightarrow> y mod k = 0"
  by (simp add: mod_eq_0_iff_dvd dvd_diff_left_iff)

lemma year_length: "DayFromYear (y + 1) = DayFromYear y + (if InLeapYear y then 366 else 365)"
proof -
  have m4: "(y - 1968) mod 4 = 0 \<longleftrightarrow> y mod 4 = 0" by (rule mod_shift) simp
  have m100: "(y - 1900) mod 100 = 0 \<longleftrightarrow> y mod 100 = 0" by (rule mod_shift) simp
  have m400: "(y - 1600) mod 400 = 0 \<longleftrightarrow> y mod 400 = 0" by (rule mod_shift) simp
  define a b c where "a = (y - 1969) div 4" and "b = (y - 1901) div 100" and "c = (y - 1601) div 400"
  have a: "(y - 1968) div 4 = a + (if y mod 4 = 0 then 1 else 0)"
    using div_succ [of 4 "y - 1969"] m4 by (simp add: a_def)
  have b: "(y - 1900) div 100 = b + (if y mod 100 = 0 then 1 else 0)"
    using div_succ [of 100 "y - 1901"] m100 by (simp add: b_def)
  have c: "(y - 1600) div 400 = c + (if y mod 400 = 0 then 1 else 0)"
    using div_succ [of 400 "y - 1601"] m400 by (simp add: c_def)
  have l: "DayFromYear (y + 1)
          = 365 * (y - 1969) + (y - 1968) div 4 - (y - 1900) div 100 + (y - 1600) div 400"
    by (simp add: DayFromYear_def)
  have r: "DayFromYear y = 365 * (y - 1970) + a - b + c"
    by (simp add: DayFromYear_def a_def b_def c_def)
  show ?thesis
  proof (cases "y mod 4 = 0")
    case False
    with dvd_chain [of y] have "y mod 100 \<noteq> 0" "y mod 400 \<noteq> 0" by argo+
    with False show ?thesis unfolding l r a b c by (simp add: InLeapYear_def)
  next
    case A: True
    show ?thesis
    proof (cases "y mod 100 = 0")
      case False
      with dvd_chain [of y] have "y mod 400 \<noteq> 0" by argo
      with A False show ?thesis unfolding l r a b c by (simp add: InLeapYear_def)
    next
      case B: True
      show ?thesis
      proof (cases "y mod 400 = 0")
        case False
        with A B show ?thesis unfolding l r a b c by (simp add: InLeapYear_def)
      next
        case True
        with A B show ?thesis unfolding l r a b c by (simp add: InLeapYear_def)
      qed
    qed
  qed
qed

lemma DayFromYear_mono_nat: "DayFromYear y \<le> DayFromYear (y + int k)"
proof (induction k)
  case 0
  then show ?case by simp
next
  case (Suc k)
  have e: "y + int (Suc k) = (y + int k) + 1" by simp
  have "DayFromYear (y + int k) \<le> DayFromYear ((y + int k) + 1)"
    unfolding year_length by simp
  with Suc show ?case unfolding e by linarith
qed

lemma DayFromYear_next:
  assumes "y < y'"
  shows "DayFromYear y + (if InLeapYear y then 366 else 365) \<le> DayFromYear y'"
proof -
  from assms have "(y + 1) + int (nat (y' - y - 1)) = y'" by simp
  with DayFromYear_mono_nat [of "y + 1" "nat (y' - y - 1)"]
  have "DayFromYear (y + 1) \<le> DayFromYear y'" by (simp only:)
  then show ?thesis by (simp add: year_length)
qed

lemma month_start_step:
  assumes "1 \<le> m" and "m \<le> 11"
  shows "month_start y m = month_start y (m - 1) + days_in_month y m"
proof -
  from assms have "m = 1 \<or> m = 2 \<or> m = 3 \<or> m = 4 \<or> m = 5 \<or> m = 6 \<or> m = 7 \<or> m = 8
      \<or> m = 9 \<or> m = 10 \<or> m = 11"
    by arith
  then show ?thesis
    by (elim disjE; simp add: month_start_def days_in_month_def)
qed

lemma days_in_month_pos: "28 \<le> days_in_month y m"
  by (simp add: days_in_month_def)

lemma month_start_mono_nat:
  assumes "1 \<le> m" and "m + int k \<le> 12"
  shows "month_start y (m - 1) \<le> month_start y (m + int k - 1)"
  using assms(2)
proof (induction k)
  case 0
  then show ?case by simp
next
  case (Suc k)
  have e: "m + int (Suc k) - 1 = m + int k" by simp
  have ih: "month_start y (m - 1) \<le> month_start y (m + int k - 1)"
    using Suc by simp
  have st: "month_start y (m + int k)
              = month_start y (m + int k - 1) + days_in_month y (m + int k)"
    using assms(1) Suc.prems by (intro month_start_step) simp_all
  show ?case
    unfolding e using ih st days_in_month_pos [of y "m + int k"] by linarith
qed

lemma month_end_le:
  assumes "1 \<le> m" and "m < m'" and "m' \<le> 12"
  shows "month_start y (m - 1) + days_in_month y m \<le> month_start y (m' - 1)"
proof -
  have "month_start y (m - 1) + days_in_month y m = month_start y m"
    using assms by (simp add: month_start_step)
  also have "month_start y (m + 1 - 1) \<le> month_start y (m + 1 + int (nat (m' - m - 1)) - 1)"
    using assms by (intro month_start_mono_nat) simp_all
  then have "month_start y m \<le> month_start y (m' - 1)"
    using assms by simp
  finally show ?thesis .
qed

lemma year_end_le:
  assumes "1 \<le> m" and "m \<le> 12"
  shows "month_start y (m - 1) + days_in_month y m \<le> (if InLeapYear y then 366 else 365)"
    and "0 \<le> month_start y (m - 1)"
  using month_cases [OF assms]
  by (elim disjE; simp add: month_start_def days_in_month_def)+

lemma MakeDay_less:
  assumes "valid_date (y, m, d)" and "valid_date (y', m', d')"
    and "date_before (y, m, d) (y', m', d')"
  shows "MakeDay y (m - 1) d < MakeDay y' (m' - 1) d'"
proof -
  from assms(1) have v: "1 \<le> m" "m \<le> 12" "1 \<le> d" "d \<le> days_in_month y m"
    by (simp_all add: valid_date_def)
  from assms(2) have v': "1 \<le> m'" "m' \<le> 12" "1 \<le> d'" "d' \<le> days_in_month y' m'"
    by (simp_all add: valid_date_def)
  note md = MakeDay_in_year [OF v(1,2)] MakeDay_in_year [OF v'(1,2)]
  from assms(3) consider (year) "y < y'" | (month) "y = y'" "m < m'" | (day) "y = y'" "m = m'" "d < d'"
    by (auto simp: date_before_def)
  then show ?thesis
  proof cases
    case year
    from DayFromYear_next [OF year] year_end_le [OF v(1,2), of y] year_end_le(2) [OF v'(1,2), of y'] v v'
    show ?thesis unfolding md by linarith
  next
    case month
    from month(1) have "DayFromYear y' = DayFromYear y"
      "month_start y' (m' - 1) = month_start y (m' - 1)" by simp_all
    with month_end_le [OF v(1) month(2) v'(2), of y] v v'
    show ?thesis unfolding md by linarith
  next
    case day
    then show ?thesis unfolding md by simp
  qed
qed

lemma MakeDay_less_iff:
  assumes "valid_date (y, m, d)" and "valid_date (y', m', d')"
  shows "MakeDay y (m - 1) d < MakeDay y' (m' - 1) d' \<longleftrightarrow> date_before (y, m, d) (y', m', d')"
proof
  assume "date_before (y, m, d) (y', m', d')"
  with assms show "MakeDay y (m - 1) d < MakeDay y' (m' - 1) d'" by (rule MakeDay_less)
next
  assume l: "MakeDay y (m - 1) d < MakeDay y' (m' - 1) d'"
  show "date_before (y, m, d) (y', m', d')"
  proof (rule ccontr)
    assume "\<not> date_before (y, m, d) (y', m', d')"
    then have "(y, m, d) = (y', m', d') \<or> date_before (y', m', d') (y, m, d)"
      by (auto simp: date_before_def)
    then show False
    proof
      assume "(y, m, d) = (y', m', d')"
      with l show False by simp
    next
      assume "date_before (y', m', d') (y, m, d)"
      with assms have "MakeDay y' (m' - 1) d' < MakeDay y (m - 1) d" by (intro MakeDay_less)
      with l show False by simp
    qed
  qed
qed

lemma days_in_month_le: "days_in_month y m \<le> 31"
  by (simp add: days_in_month_def)

lemma MakeDay_within_year:
  assumes "1 \<le> m" and "m \<le> 12" and "1 \<le> d" and "d \<le> 31"
  shows "DayFromYear y \<le> MakeDay y (m - 1) d" and "MakeDay y (m - 1) d < DayFromYear (y + 1)"
proof -
  have "0 \<le> month_start y (m - 1)
      \<and> month_start y (m - 1) \<le> 334 + (if InLeapYear y then 1 else 0)"
    using month_cases [OF assms(1,2)]
    by (elim disjE; simp add: month_start_def)
  with assms(3,4)
  show "DayFromYear y \<le> MakeDay y (m - 1) d" and "MakeDay y (m - 1) d < DayFromYear (y + 1)"
    unfolding MakeDay_in_year [OF assms(1,2)] year_length by (simp_all split: if_splits)
qed

lemma DayFromYear_mono:
  assumes "y \<le> y'"
  shows "DayFromYear y \<le> DayFromYear y'"
proof -
  from assms have "y + int (nat (y' - y)) = y'" by simp
  with DayFromYear_mono_nat [of y "nat (y' - y)"] show ?thesis by (simp only:)
qed

lemma DayFromYear_values: "DayFromYear 0 = - 719528" "DayFromYear 2000 = 10957" "DayFromYear 10000 = 2932897"
  by (simp_all add: DayFromYear_def)

lemma TimeClip_in_range:
  assumes "- 719528 \<le> day" and "day < 2932897" and "\<bar>z\<bar> \<le> 86400000"
  shows "TimeClip (day * msPerDay - z) = Some (day * msPerDay - z)"
  using assms by (simp add: TimeClip_def msPerDay_def)

text \<open>
  The status rule is a date-only comparison: for a due date that exists, written
  \<open>YYYY-MM-DD\<close>, and a session whose local date lies between the years 2000 and 9999,
  \<open>dueDateObj < today\<close> holds exactly when the due date is before the local date,
  whatever the time of day and the offset from UTC.
\<close>

lemma overdue_iff_due_before_today:
  assumes due: "valid_date (int y, int m, int d)" and y: "y \<le> 9999"
    and today: "local_today (now e) = (ty, tm, td)" "valid_date (ty, tm, td)"
    and ty: "2000 \<le> ty" "ty \<le> 9999"
    and tz: "\<bar>tza (now e)\<bar> \<le> 86400000"
  shows "date_lt (dueDateObj e (date_string y m d)) (today_midnight (now e))
           \<longleftrightarrow> date_before (int y, int m, int d) (ty, tm, td)"
proof -
  define yr where "yr = (if y \<le> 99 then 1900 + int y else int y)"
  from due have v: "1 \<le> int m" "int m \<le> 12" "1 \<le> int d" "int d \<le> 31"
    using days_in_month_le [of "int y" "int m"] by (simp_all add: valid_date_def)
  from today(2) have w: "1 \<le> tm" "tm \<le> 12" "1 \<le> td" "td \<le> 31"
    using days_in_month_le [of ty tm] by (simp_all add: valid_date_def)
  have yr_range: "0 \<le> yr" "yr \<le> 9999"
    using y by (simp_all add: yr_def)
  have due_day: "- 719528 \<le> MakeDay yr (int m - 1) (int d)" "MakeDay yr (int m - 1) (int d) < 2932897"
    using MakeDay_within_year [OF v, of yr] DayFromYear_mono [of 0 yr]
      DayFromYear_mono [of "yr + 1" 10000] yr_range
    by (simp_all add: DayFromYear_values)
  have today_day: "- 719528 \<le> MakeDay ty (tm - 1) td" "MakeDay ty (tm - 1) td < 2932897"
    using MakeDay_within_year [OF w, of ty] DayFromYear_mono [of 0 ty]
      DayFromYear_mono [of "ty + 1" 10000] ty
    by (simp_all add: DayFromYear_values)
  have "dueDateObj e (date_string y m d)
          = TimeClip (MakeDay yr (int m - 1) (int d) * msPerDay - tza (now e))"
    using dueDateObj_date_string [of y m d e] y v by (simp add: yr_def)
  then have a: "dueDateObj e (date_string y m d)
                  = Some (MakeDay yr (int m - 1) (int d) * msPerDay - tza (now e))"
    using TimeClip_in_range [OF due_day tz] by simp
  have b: "today_midnight (now e) = Some (MakeDay ty (tm - 1) td * msPerDay - tza (now e))"
    using TimeClip_in_range [OF today_day tz] by (simp add: today_midnight_def today(1))
  have lt: "date_lt (dueDateObj e (date_string y m d)) (today_midnight (now e))
              \<longleftrightarrow> MakeDay yr (int m - 1) (int d) < MakeDay ty (tm - 1) td"
    unfolding a b by (simp add: date_lt_def msPerDay_def)
  show ?thesis
  proof (cases "y \<le> 99")
    case False
    then have "yr = int y" by (simp add: yr_def)
    with lt MakeDay_less_iff [OF due today(2)] show ?thesis by simp
  next
    case True
    then have "yr + 1 \<le> 2000" by (simp add: yr_def)
    then have "DayFromYear (yr + 1) \<le> DayFromYear ty"
      using DayFromYear_mono [of "yr + 1" ty] ty by simp
    with MakeDay_within_year(2) [OF v, of yr] MakeDay_within_year(1) [OF w, of ty]
    have "MakeDay yr (int m - 1) (int d) < MakeDay ty (tm - 1) td" by linarith
    moreover from True ty have "date_before (int y, int m, int d) (ty, tm, td)"
      by (simp add: date_before_def)
    ultimately show ?thesis using lt by simp
  qed
qed

text \<open>
  C3. The claim wants the \<open>issueDate\<close> to be the current local date. At 22:30 on
  14 March 2024 in a session three hours behind UTC, \<open>createInvoice\<close> with a due date
  of 14 March stores the \<open>issueDate\<close> 2024-03-15, the date in UTC printed by
  \<open>toISOString\<close>, while the local date is 2024-03-14; the status is computed against
  the local midnight and is Pendente, and the omitted observations are the empty string.
\<close>

theorem create_stamps_utc_date:
  "executeFunctionCall quiet_env [] ''createInvoice'' bob_due_today
     = ([AddInvoice [(''clientName'', JStr ''Bob''), (''amount'', JNum 5),
                     (''issueDate'', JStr ''2024-03-15''), (''dueDate'', JStr ''2024-03-14''),
                     (''status'', InvoiceStatus_Pendente), (''observations'', JStr [])]],
        Inr (Created (JStr ''Bob'') (JNum 5)))
   \<and> iso_date (local_today (now quiet_env)) = ''2024-03-14''"
proof -
  have n: "now quiet_env = late_evening" "store_rejects quiet_env = (\<lambda>c. None)"
    by (simp_all add: quiet_env_def)
  show ?thesis
    by (simp add: executeFunctionCall_def bob_due_today_def read_prop_def get_def elem_def
          dueDateObj_def date_lt_def await_def n split_14_march numbers_14_march due_14_march
          today_late_evening iso_late_evening)
qed

section \<open>Properties of the orchestrator\<close>

lemma run_calls_fst:
  "fst (run_calls e invoices fcs)
     = concat (map (\<lambda>fc. fst (executeFunctionCall e invoices (fc_name fc) (fc_args fc))) fcs)"
  by (induction fcs) (auto split: prod.splits)

lemma run_calls_snd: "snd (run_calls e invoices fcs) = map (response_for e invoices) fcs"
  by (induction fcs)
    (auto simp: respond_def response_for_def split: prod.splits sum.splits thrown.splits)

lemma to_history_first:
  "to_history t (messages st @ [\<lparr>m_role = ''user'', m_text = input st\<rparr>]) = first_request t st"
  by (simp add: to_history_def first_request_def)

lemma final_turn_assistant: "final_turn (r_text reply) = assistant_turn reply"
  by (simp add: final_turn_def assistant_turn_def)

lemma no_calls_iff:
  "\<not> has_calls reply \<longleftrightarrow> r_functionCalls reply = None \<or> r_functionCalls reply = Some []"
  by (auto simp: has_calls_def split: option.splits)

lemma try_block_no_calls:
  assumes "\<not> context_throws invoices" and "callProxy h = Inr reply" and "\<not> has_calls reply"
  shows "try_block e callProxy invoices h = ([h], [], h, Inr (r_text reply))"
  using assms by (simp add: try_block_def)

lemma try_block_calls:
  assumes "\<not> context_throws invoices" and "callProxy h = Inr reply" and "has_calls reply"
  shows "try_block e callProxy invoices h
           = ([h, h @ [\<lparr>c_role = ''model'', c_parts = r_parts reply\<rparr>,
                        \<lparr>c_role = ''user'', c_parts = snd (run_calls e invoices (the_calls reply))\<rparr>]],
              fst (run_calls e invoices (the_calls reply)),
              h @ [\<lparr>c_role = ''model'', c_parts = r_parts reply\<rparr>,
                   \<lparr>c_role = ''user'', c_parts = snd (run_calls e invoices (the_calls reply))\<rparr>],
              case callProxy (h @ [\<lparr>c_role = ''model'', c_parts = r_parts reply\<rparr>,
                   \<lparr>c_role = ''user'', c_parts = snd (run_calls e invoices (the_calls reply))\<rparr>]) of
                Inl err \<Rightarrow> Inl err | Inr reply2 \<Rightarrow> Inr (r_text reply2))"
  using assms by (simp add: try_block_def Let_def split: prod.splits sum.splits)

lemma try_block_round:
  assumes "\<not> context_throws invoices" and "callProxy (first_request t st) = Inr reply"
    and "r_functionCalls reply = Some calls" and "calls \<noteq> []"
  shows "try_block e callProxy invoices (first_request t st)
           = ([first_request t st, second_request t e invoices st reply calls],
              concat (map (\<lambda>fc. fst (executeFunctionCall e invoices (fc_name fc) (fc_args fc))) calls),
              second_request t e invoices st reply calls,
              case callProxy (second_request t e invoices st reply calls) of
                Inl err \<Rightarrow> Inl err | Inr reply2 \<Rightarrow> Inr (r_text reply2))"
proof -
  from assms(3,4) have h: "has_calls reply" and c: "the_calls reply = calls"
    by (simp_all add: has_calls_def the_calls_def)
  from try_block_calls [where invoices = invoices and callProxy = callProxy
      and h = "first_request t st" and reply = reply and e = e] assms(1,2) h
  show ?thesis
    by (simp add: c run_calls_fst run_calls_snd second_request_def)
qed

lemma handleSend_no_calls:
  assumes "\<not> blocked e st" and "\<not> context_throws invoices"
    and "callProxy (first_request t st) = Inr reply" and "\<not> has_calls reply"
  shows "handleSend t e callProxy invoices st
           = \<lparr>state = \<lparr>messages = messages st @ [\<lparr>m_role = ''user'', m_text = input st\<rparr>]
                                  @ assistant_turn reply,
                       input = [], isLoading = False, error = None\<rparr>,
              relay_calls = [first_request t st], store_calls = [],
              history = first_request t st\<rparr>"
  using assms try_block_no_calls [of invoices callProxy "first_request t st" reply e]
  by (simp add: handleSend_def to_history_first final_turn_assistant Let_def)

lemma handleSend_calls:
  assumes "\<not> blocked e st" and "\<not> context_throws invoices"
    and "callProxy (first_request t st) = Inr reply"
    and "r_functionCalls reply = Some calls" and "calls \<noteq> []"
  shows "relay_calls (handleSend t e callProxy invoices st)
           = [first_request t st, second_request t e invoices st reply calls]"
    and "store_calls (handleSend t e callProxy invoices st)
           = concat (map (\<lambda>fc. fst (executeFunctionCall e invoices (fc_name fc) (fc_args fc))) calls)"
    and "history (handleSend t e callProxy invoices st) = second_request t e invoices st reply calls"
    and "callProxy (second_request t e invoices st reply calls) = Inr reply2 \<Longrightarrow>
         messages (state (handleSend t e callProxy invoices st))
           = messages st @ [\<lparr>m_role = ''user'', m_text = input st\<rparr>] @ assistant_turn reply2"
  using assms(1)
    try_block_round [where invoices = invoices and callProxy = callProxy and t = t and st = st
      and reply = reply and calls = calls and e = e, OF assms(2) assms(3) assms(4) assms(5)]
  by (auto simp: handleSend_def to_history_first final_turn_assistant Let_def split: sum.splits)

subsection \<open>Runs against example proxies\<close>

lemma ex_first:
  "first_request ui_strings asking = [\<lparr>c_role = ''user'', c_parts = [TextPart ''invoice for Bob'']\<rparr>]"
  by (simp add: first_request_def ui_strings_def asking_def)

lemma ex_not_blocked: "\<not> blocked quiet_env asking"
  by (simp add: blocked_def asking_def quiet_env_def ascii_trim_def ascii_space_def)

lemma ex_context: "\<not> context_throws []"
  by (simp add: context_throws_def)

lemma ex_list_empty:
  "executeFunctionCall quiet_env [] ''listInvoices'' (JObj [])
     = ([], Inr (Info (NoneWithStatus (JStr ''qualquer''))))"
  by (simp add: executeFunctionCall_def read_prop_def get_def interpolate_def)

lemma ex_create_no_due:
  "executeFunctionCall quiet_env [] ''createInvoice'' bob_no_due = ([], Inl TypeError)"
  by (simp add: executeFunctionCall_def bob_no_due_def read_prop_def get_def)

lemma ex_calls:
  "r_functionCalls reply_list = Some [\<lparr>fc_name = ''listInvoices'', fc_args = JObj []\<rparr>]"
  "r_functionCalls reply_create = Some [\<lparr>fc_name = ''createInvoice'', fc_args = bob_due_today\<rparr>]"
  "r_functionCalls reply_two = Some [\<lparr>fc_name = ''listInvoices'', fc_args = JObj []\<rparr>,
                                     \<lparr>fc_name = ''createInvoice'', fc_args = bob_no_due\<rparr>]"
  "r_functionCalls reply_plain = None"
  by (simp_all add: reply_list_def reply_create_def reply_two_def reply_plain_def)

lemma ex_turns:
  "assistant_turn reply_create = [\<lparr>m_role = ''model'', m_text = ''Creating it''\<rparr>]"
  "assistant_turn reply_plain = [\<lparr>m_role = ''model'', m_text = ''Hello''\<rparr>]"
  by (simp_all add: assistant_turn_def reply_create_def reply_plain_def)

lemma ex_user:
  "messages asking @ [\<lparr>m_role = ''user'', m_text = input asking\<rparr>]
     = [\<lparr>m_role = ''user'', m_text = ''invoice for Bob''\<rparr>]"
  by (simp add: asking_def)

lemma ex_second_list:
  "second_request ui_strings quiet_env [] asking reply_list
       [\<lparr>fc_name = ''listInvoices'', fc_args = JObj []\<rparr>]
     = [\<lparr>c_role = ''user'', c_parts = [TextPart ''invoice for Bob'']\<rparr>,
        \<lparr>c_role = ''model'', c_parts = [FunctionCallPart ''listInvoices'' (JObj [])]\<rparr>,
        \<lparr>c_role = ''user'',
         c_parts = [FunctionResponse ''listInvoices''
                      (Result (Info (NoneWithStatus (JStr ''qualquer''))))]\<rparr>]"
  by (simp add: second_request_def ex_first response_for_def ex_list_empty)
    (simp add: reply_list_def)

lemma ex_second_create:
  "second_request ui_strings quiet_env [] asking reply_create
       [\<lparr>fc_name = ''createInvoice'', fc_args = bob_due_today\<rparr>]
     = [\<lparr>c_role = ''user'', c_parts = [TextPart ''invoice for Bob'']\<rparr>,
        \<lparr>c_role = ''model'',
         c_parts = [TextPart ''Creating it'', FunctionCallPart ''createInvoice'' bob_due_today]\<rparr>,
        \<lparr>c_role = ''user'',
         c_parts = [FunctionResponse ''createInvoice''
                      (Result (Created (JStr ''Bob'') (JNum 5)))]\<rparr>]"
  by (simp add: second_request_def ex_first response_for_def create_14_march)
    (simp add: reply_create_def)

lemma ex_second_two:
  "second_request ui_strings quiet_env [] asking reply_two
       [\<lparr>fc_name = ''listInvoices'', fc_args = JObj []\<rparr>,
        \<lparr>fc_name = ''createInvoice'', fc_args = bob_no_due\<rparr>]
     = [\<lparr>c_role = ''user'', c_parts = [TextPart ''invoice for Bob'']\<rparr>,
        \<lparr>c_role = ''model'',
         c_parts = [FunctionCallPart ''listInvoices'' (JObj []),
                    FunctionCallPart ''createInvoice'' bob_no_due]\<rparr>,
        \<lparr>c_role = ''user'',
         c_parts = [FunctionResponse ''listInvoices''
                      (Result (Info (NoneWithStatus (JStr ''qualquer'')))),
                    FunctionResponse ''createInvoice'' (ErrorPayload (MessageOf TypeError))]\<rparr>]"
  by (simp add: second_request_def ex_first response_for_def ex_list_empty ex_create_no_due)
    (simp add: reply_two_def)

lemma ex_relays:
  "relay_twice (first_request ui_strings asking) = Inr reply_list"
  "relay_twice (second_request ui_strings quiet_env [] asking reply_list
                  [\<lparr>fc_name = ''listInvoices'', fc_args = JObj []\<rparr>]) = Inr reply_create"
  "relay_create (first_request ui_strings asking) = Inr reply_create"
  "relay_create (second_request ui_strings quiet_env [] asking reply_create
                  [\<lparr>fc_name = ''createInvoice'', fc_args = bob_due_today\<rparr>]) = Inr reply_plain"
  "relay_two (first_request ui_strings asking) = Inr reply_two"
  "relay_plain (first_request ui_strings asking) = Inr reply_plain"
  by (simp_all add: relay_twice_def relay_create_def relay_two_def relay_plain_def ex_first
        ex_second_list ex_second_create)

lemma ex_twice:
  "relay_calls (handleSend ui_strings quiet_env relay_twice [] asking)
     = [[\<lparr>c_role = ''user'', c_parts = [TextPart ''invoice for Bob'']\<rparr>],
        [\<lparr>c_role = ''user'', c_parts = [TextPart ''invoice for Bob'']\<rparr>,
         \<lparr>c_role = ''model'', c_parts = [FunctionCallPart ''listInvoices'' (JObj [])]\<rparr>,
         \<lparr>c_role = ''user'',
          c_parts = [FunctionResponse ''listInvoices''
                       (Result (Info (NoneWithStatus (JStr ''qualquer''))))]\<rparr>]]"
  "store_calls (handleSend ui_strings quiet_env relay_twice [] asking) = []"
  "history (handleSend ui_strings quiet_env relay_twice [] asking)
     = [\<lparr>c_role = ''user'', c_parts = [TextPart ''invoice for Bob'']\<rparr>,
        \<lparr>c_role = ''model'', c_parts = [FunctionCallPart ''listInvoices'' (JObj [])]\<rparr>,
        \<lparr>c_role = ''user'',
         c_parts = [FunctionResponse ''listInvoices''
                      (Result (Info (NoneWithStatus (JStr ''qualquer''))))]\<rparr>]"
  "messages (state (handleSend ui_strings quiet_env relay_twice [] asking))
     = [\<lparr>m_role = ''user'', m_text = ''invoice for Bob''\<rparr>,
        \<lparr>m_role = ''model'', m_text = ''Creating it''\<rparr>]"
proof -
  note run = handleSend_calls
    [where st = asking and invoices = "[]" and callProxy = relay_twice and t = ui_strings
       and reply = reply_list and e = quiet_env
       and calls = "[\<lparr>fc_name = ''listInvoices'', fc_args = JObj []\<rparr>]",
     OF ex_not_blocked ex_context ex_relays(1) ex_calls(1)]
  from run(1) show "relay_calls (handleSend ui_strings quiet_env relay_twice [] asking)
     = [[\<lparr>c_role = ''user'', c_parts = [TextPart ''invoice for Bob'']\<rparr>],
        [\<lparr>c_role = ''user'', c_parts = [TextPart ''invoice for Bob'']\<rparr>,
         \<lparr>c_role = ''model'', c_parts = [FunctionCallPart ''listInvoices'' (JObj [])]\<rparr>,
         \<lparr>c_role = ''user'',
          c_parts = [FunctionResponse ''listInvoices''
                       (Result (Info (NoneWithStatus (JStr ''qualquer''))))]\<rparr>]]"
    by (simp add: ex_first ex_second_list)
  from run(2) show "store_calls (handleSend ui_strings quiet_env relay_twice [] asking) = []"
    by (simp add: ex_list_empty)
  from run(3) show "history (handleSend ui_strings quiet_env relay_twice [] asking)
     = [\<lparr>c_role = ''user'', c_parts = [TextPart ''invoice for Bob'']\<rparr>,
        \<lparr>c_role = ''model'', c_parts = [FunctionCallPart ''listInvoices'' (JObj [])]\<rparr>,
        \<lparr>c_role = ''user'',
         c_parts = [FunctionResponse ''listInvoices''
                      (Result (Info (NoneWithStatus (JStr ''qualquer''))))]\<rparr>]"
    by (simp add: ex_second_list)
  from run(4) [OF _ ex_relays(2)]
  show "messages (state (handleSend ui_strings quiet_env relay_twice [] asking))
     = [\<lparr>m_role = ''user'', m_text = ''invoice for Bob''\<rparr>,
        \<lparr>m_role = ''model'', m_text = ''Creating it''\<rparr>]"
    by (simp add: ex_turns ex_user)
qed

subsection \<open>One round of function calls\<close>

text \<open>
  C2, as stated, fails: there is no loop. When the reply to the second request holds a
  function call again (here \<open>createInvoice\<close>), no third request is sent and the call is
  not dispatched: the store is never called. The text of that reply is shown as the
  assistant's turn all the same.
\<close>

theorem second_reply_calls_ignored_counterexample:
  "length (relay_calls (handleSend ui_strings quiet_env relay_twice [] asking)) = 2
   \<and> relay_twice (relay_calls (handleSend ui_strings quiet_env relay_twice [] asking) ! 1)
       = Inr reply_create
   \<and> r_functionCalls reply_create
       = Some [\<lparr>fc_name = ''createInvoice'', fc_args = bob_due_today\<rparr>]
   \<and> store_calls (handleSend ui_strings quiet_env relay_twice [] asking) = []
   \<and> messages (state (handleSend ui_strings quiet_env relay_twice [] asking))
       = [\<lparr>m_role = ''user'', m_text = ''invoice for Bob''\<rparr>,
          \<lparr>m_role = ''model'', m_text = ''Creating it''\<rparr>]"
  by (simp add: ex_twice ex_calls) (simp add: relay_twice_def)

text \<open>
  C2, as the code has it. For every request that is accepted (the trimmed input is not
  empty, nothing is loading and no error is set) and whose first call to the proxy is
  answered: if the first reply holds no function calls, one request is sent, no store
  call is issued and the reply's text (when not empty) is appended as the assistant's
  turn; if it holds function calls, each of them is dispatched, in order, so that the
  store calls issued are those of the calls one after the other; the reply's parts and
  then one turn with the response to every call are appended to the history, which is
  sent exactly once more; and the text of the second reply (when not empty) is appended
  as the assistant's turn, whether or not that reply holds function calls.
\<close>

theorem handleSend_dispatches_one_round:
  assumes "\<not> blocked e st" and "\<not> context_throws invoices"
    and "callProxy (first_request t st) = Inr reply"
  shows "(r_functionCalls reply = None \<or> r_functionCalls reply = Some [] \<longrightarrow>
            relay_calls (handleSend t e callProxy invoices st) = [first_request t st]
          \<and> store_calls (handleSend t e callProxy invoices st) = []
          \<and> messages (state (handleSend t e callProxy invoices st))
              = messages st @ [\<lparr>m_role = ''user'', m_text = input st\<rparr>] @ assistant_turn reply)
       \<and> (\<forall>calls. r_functionCalls reply = Some calls \<and> calls \<noteq> [] \<longrightarrow>
            relay_calls (handleSend t e callProxy invoices st)
              = [first_request t st,
                 first_request t st
                   @ [\<lparr>c_role = ''model'', c_parts = r_parts reply\<rparr>,
                      \<lparr>c_role = ''user'', c_parts = map (response_for e invoices) calls\<rparr>]]
          \<and> store_calls (handleSend t e callProxy invoices st)
              = concat (map (\<lambda>fc. fst (executeFunctionCall e invoices (fc_name fc) (fc_args fc)))
                          calls)
          \<and> (\<forall>reply2. callProxy (first_request t st
                                    @ [\<lparr>c_role = ''model'', c_parts = r_parts reply\<rparr>,
                                       \<lparr>c_role = ''user'',
                                        c_parts = map (response_for e invoices) calls\<rparr>])
                          = Inr reply2 \<longrightarrow>
                 messages (state (handleSend t e callProxy invoices st))
                   = messages st @ [\<lparr>m_role = ''user'', m_text = input st\<rparr>]
                       @ assistant_turn reply2))"
proof (intro conjI impI allI)
  assume "r_functionCalls reply = None \<or> r_functionCalls reply = Some []"
  then have n: "\<not> has_calls reply"
    by (simp add: no_calls_iff)
  have r: "handleSend t e callProxy invoices st
           = \<lparr>state = \<lparr>messages = messages st @ [\<lparr>m_role = ''user'', m_text = input st\<rparr>]
                                  @ assistant_turn reply,
                       input = [], isLoading = False, error = None\<rparr>,
              relay_calls = [first_request t st], store_calls = [],
              history = first_request t st\<rparr>"
    using assms n
      handleSend_no_calls [where st = st and invoices = invoices and callProxy = callProxy
        and t = t and reply = reply and e = e]
    by blast
  show "relay_calls (handleSend t e callProxy invoices st) = [first_request t st]"
    by (simp add: r)
  show "store_calls (handleSend t e callProxy invoices st) = []"
    by (simp add: r)
  show "messages (state (handleSend t e callProxy invoices st))
          = messages st @ [\<lparr>m_role = ''user'', m_text = input st\<rparr>] @ assistant_turn reply"
    by (simp add: r)
next
  fix calls
  assume c: "r_functionCalls reply = Some calls \<and> calls \<noteq> []"
  note run = handleSend_calls
    [where st = st and invoices = invoices and callProxy = callProxy and t = t
       and reply = reply and e = e and calls = calls,
     OF assms(1) assms(2) assms(3) conjunct1 [OF c] conjunct2 [OF c]]
  from run(1)
  show "relay_calls (handleSend t e callProxy invoices st)
          = [first_request t st,
             first_request t st
               @ [\<lparr>c_role = ''model'', c_parts = r_parts reply\<rparr>,
                  \<lparr>c_role = ''user'', c_parts = map (response_for e invoices) calls\<rparr>]]"
    by (simp add: second_request_def)
  from run(2)
  show "store_calls (handleSend t e callProxy invoices st)
          = concat (map (\<lambda>fc. fst (executeFunctionCall e invoices (fc_name fc) (fc_args fc)))
                      calls)" .
  fix reply2
  assume "callProxy (first_request t st
                       @ [\<lparr>c_role = ''model'', c_parts = r_parts reply\<rparr>,
                          \<lparr>c_role = ''user'', c_parts = map (response_for e invoices) calls\<rparr>])
            = Inr reply2"
  then have "callProxy (second_request t e invoices st reply calls) = Inr reply2"
    by (simp add: second_request_def)
  from run(4) [OF this]
  show "messages (state (handleSend t e callProxy invoices st))
          = messages st @ [\<lparr>m_role = ''user'', m_text = input st\<rparr>] @ assistant_turn reply2" .
qed

theorem handleSend_dispatches_one_round_witness:
  "\<not> blocked quiet_env asking \<and> \<not> context_throws []
   \<and> relay_create (first_request ui_strings asking) = Inr reply_create
   \<and> r_functionCalls reply_create
       = Some [\<lparr>fc_name = ''createInvoice'', fc_args = bob_due_today\<rparr>]
   \<and> relay_calls (handleSend ui_strings quiet_env relay_create [] asking)
       = [[\<lparr>c_role = ''user'', c_parts = [TextPart ''invoice for Bob'']\<rparr>],
          [\<lparr>c_role = ''user'', c_parts = [TextPart ''invoice for Bob'']\<rparr>,
           \<lparr>c_role = ''model'',
            c_parts = [TextPart ''Creating it'', FunctionCallPart ''createInvoice'' bob_due_today]\<rparr>,
           \<lparr>c_role = ''user'',
            c_parts = [FunctionResponse ''createInvoice''
                         (Result (Created (JStr ''Bob'') (JNum 5)))]\<rparr>]]
   \<and> store_calls (handleSend ui_strings quiet_env relay_create [] asking)
       = [AddInvoice [(''clientName'', JStr ''Bob''), (''amount'', JNum 5),
                      (''issueDate'', JStr ''2024-03-15''), (''dueDate'', JStr ''2024-03-14''),
                      (''status'', JStr ''Pendente''), (''observations'', JStr [])]]
   \<and> relay_create (relay_calls (handleSend ui_strings quiet_env relay_create [] asking) ! 1)
       = Inr reply_plain
   \<and> messages (state (handleSend ui_strings quiet_env relay_create [] asking))
       = [\<lparr>m_role = ''user'', m_text = ''invoice for Bob''\<rparr>,
          \<lparr>m_role = ''model'', m_text = ''Hello''\<rparr>]
   \<and> relay_plain (first_request ui_strings asking) = Inr reply_plain
   \<and> r_functionCalls reply_plain = None
   \<and> relay_calls (handleSend ui_strings quiet_env relay_plain [] asking)
       = [[\<lparr>c_role = ''user'', c_parts = [TextPart ''invoice for Bob'']\<rparr>]]
   \<and> store_calls (handleSend ui_strings quiet_env relay_plain [] asking) = []
   \<and> messages (state (handleSend ui_strings quiet_env relay_plain [] asking))
       = [\<lparr>m_role = ''user'', m_text = ''invoice for Bob''\<rparr>,
          \<lparr>m_role = ''model'', m_text = ''Hello''\<rparr>]"
proof -
  note create = handleSend_dispatches_one_round
    [where st = asking and invoices = "[]" and callProxy = relay_create and t = ui_strings
       and reply = reply_create and e = quiet_env, OF ex_not_blocked ex_context ex_relays(3)]
  note plain = handleSend_dispatches_one_round
    [where st = asking and invoices = "[]" and callProxy = relay_plain and t = ui_strings
       and reply = reply_plain and e = quiet_env,
     OF ex_not_blocked ex_context ex_relays(6)]
  have s: "first_request ui_strings asking
             @ [\<lparr>c_role = ''model'', c_parts = r_parts reply_create\<rparr>,
                \<lparr>c_role = ''user'',
                 c_parts = map (response_for quiet_env [])
                             [\<lparr>fc_name = ''createInvoice'', fc_args = bob_due_today\<rparr>]\<rparr>]
           = [\<lparr>c_role = ''user'', c_parts = [TextPart ''invoice for Bob'']\<rparr>,
              \<lparr>c_role = ''model'',
               c_parts = [TextPart ''Creating it'', FunctionCallPart ''createInvoice'' bob_due_today]\<rparr>,
              \<lparr>c_role = ''user'',
               c_parts = [FunctionResponse ''createInvoice''
                            (Result (Created (JStr ''Bob'') (JNum 5)))]\<rparr>]"
    using ex_second_create by (simp add: second_request_def)
  have q: "relay_create
             [\<lparr>c_role = ''user'', c_parts = [TextPart ''invoice for Bob'']\<rparr>,
              \<lparr>c_role = ''model'',
               c_parts = [TextPart ''Creating it'', FunctionCallPart ''createInvoice'' bob_due_today]\<rparr>,
              \<lparr>c_role = ''user'',
               c_parts = [FunctionResponse ''createInvoice''
                            (Result (Created (JStr ''Bob'') (JNum 5)))]\<rparr>] = Inr reply_plain"
    by (simp add: relay_create_def)
  from create have round:
    "relay_calls (handleSend ui_strings quiet_env relay_create [] asking)
       = [first_request ui_strings asking,
          first_request ui_strings asking
            @ [\<lparr>c_role = ''model'', c_parts = r_parts reply_create\<rparr>,
               \<lparr>c_role = ''user'',
                c_parts = map (response_for quiet_env [])
                            [\<lparr>fc_name = ''createInvoice'', fc_args = bob_due_today\<rparr>]\<rparr>]]"
    "store_calls (handleSend ui_strings quiet_env relay_create [] asking)
       = concat (map (\<lambda>fc. fst (executeFunctionCall quiet_env [] (fc_name fc) (fc_args fc)))
                   [\<lparr>fc_name = ''createInvoice'', fc_args = bob_due_today\<rparr>])"
    "relay_create (first_request ui_strings asking
            @ [\<lparr>c_role = ''model'', c_parts = r_parts reply_create\<rparr>,
               \<lparr>c_role = ''user'',
                c_parts = map (response_for quiet_env [])
                            [\<lparr>fc_name = ''createInvoice'', fc_args = bob_due_today\<rparr>]\<rparr>])
       = Inr reply_plain \<Longrightarrow>
     messages (state (handleSend ui_strings quiet_env relay_create [] asking))
       = messages asking @ [\<lparr>m_role = ''user'', m_text = input asking\<rparr>]
           @ assistant_turn reply_plain"
    using ex_calls(2) by blast+
  from round(1) have 1:
    "relay_calls (handleSend ui_strings quiet_env relay_create [] asking)
       = [[\<lparr>c_role = ''user'', c_parts = [TextPart ''invoice for Bob'']\<rparr>],
          [\<lparr>c_role = ''user'', c_parts = [TextPart ''invoice for Bob'']\<rparr>,
           \<lparr>c_role = ''model'',
            c_parts = [TextPart ''Creating it'', FunctionCallPart ''createInvoice'' bob_due_today]\<rparr>,
           \<lparr>c_role = ''user'',
            c_parts = [FunctionResponse ''createInvoice''
                         (Result (Created (JStr ''Bob'') (JNum 5)))]\<rparr>]]"
    by (simp only: s) (simp add: ex_first)
  from round(2) have 2:
    "store_calls (handleSend ui_strings quiet_env relay_create [] asking)
       = [AddInvoice [(''clientName'', JStr ''Bob''), (''amount'', JNum 5),
                      (''issueDate'', JStr ''2024-03-15''), (''dueDate'', JStr ''2024-03-14''),
                      (''status'', JStr ''Pendente''), (''observations'', JStr [])]]"
    by (simp add: create_14_march)
  from q have 3:
    "relay_create (relay_calls (handleSend ui_strings quiet_env relay_create [] asking) ! 1)
       = Inr reply_plain"
    by (simp add: 1)
  from round(3) q have 4:
    "messages (state (handleSend ui_strings quiet_env relay_create [] asking))
       = [\<lparr>m_role = ''user'', m_text = ''invoice for Bob''\<rparr>,
          \<lparr>m_role = ''model'', m_text = ''Hello''\<rparr>]"
    by (simp only: s) (simp add: ex_turns ex_user)
  from plain ex_calls(4) have 5:
    "relay_calls (handleSend ui_strings quiet_env relay_plain [] asking)
       = [[\<lparr>c_role = ''user'', c_parts = [TextPart ''invoice for Bob'']\<rparr>]]"
    and 6: "store_calls (handleSend ui_strings quiet_env relay_plain [] asking) = []"
    and 7: "messages (state (handleSend ui_strings quiet_env relay_plain [] asking))
       = [\<lparr>m_role = ''user'', m_text = ''invoice for Bob''\<rparr>,
          \<lparr>m_role = ''model'', m_text = ''Hello''\<rparr>]"
    by (simp_all add: ex_first ex_turns ex_user)
  from ex_not_blocked ex_context ex_relays(3) ex_relays(6) ex_calls(2) ex_calls(4)
    1 2 3 4 5 6 7
  show ?thesis by simp
qed

subsection \<open>One function response per function call\<close>

text \<open>
  C4, as stated, fails for the reply to the second request: it holds one function call,
  and no function response is produced for it; the history ends with the responses to
  the first reply, and the store is never called.
\<close>

theorem second_reply_unanswered_counterexample:
  "relay_twice (history (handleSend ui_strings quiet_env relay_twice [] asking)) = Inr reply_create
   \<and> r_functionCalls reply_create
       = Some [\<lparr>fc_name = ''createInvoice'', fc_args = bob_due_today\<rparr>]
   \<and> history (handleSend ui_strings quiet_env relay_twice [] asking)
       = [\<lparr>c_role = ''user'', c_parts = [TextPart ''invoice for Bob'']\<rparr>,
          \<lparr>c_role = ''model'', c_parts = [FunctionCallPart ''listInvoices'' (JObj [])]\<rparr>,
          \<lparr>c_role = ''user'',
           c_parts = [FunctionResponse ''listInvoices''
                        (Result (Info (NoneWithStatus (JStr ''qualquer''))))]\<rparr>]
   \<and> relay_calls (handleSend ui_strings quiet_env relay_twice [] asking)
       = [[\<lparr>c_role = ''user'', c_parts = [TextPart ''invoice for Bob'']\<rparr>],
          history (handleSend ui_strings quiet_env relay_twice [] asking)]
   \<and> store_calls (handleSend ui_strings quiet_env relay_twice [] asking) = []"
  by (simp add: ex_twice ex_calls) (simp add: relay_twice_def)

text \<open>
  C4, as the code has it. When the first reply of an accepted request holds N function
  calls (N at least 1), exactly N function responses are produced, in the order of the
  calls: the i-th carries the name of the i-th call and the outcome of executing it,
  which is the result returned or, when executing it threw, an error payload with the
  message of the error thrown (the fallback text naming the function when what was
  thrown is not an \<open>Error\<close>). They are appended together as one user turn after the model
  turn holding the reply's parts, and that history is the second request sent to the
  proxy.
\<close>

theorem first_reply_answered_in_one_turn:
  assumes "\<not> blocked e st" and "\<not> context_throws invoices"
    and "callProxy (first_request t st) = Inr reply"
    and "r_functionCalls reply = Some calls" and "calls \<noteq> []"
  shows "\<exists>responses.
           relay_calls (handleSend t e callProxy invoices st)
             = [first_request t st,
                first_request t st
                  @ [\<lparr>c_role = ''model'', c_parts = r_parts reply\<rparr>,
                     \<lparr>c_role = ''user'', c_parts = responses\<rparr>]]
         \<and> history (handleSend t e callProxy invoices st)
             = first_request t st
                 @ [\<lparr>c_role = ''model'', c_parts = r_parts reply\<rparr>,
                    \<lparr>c_role = ''user'', c_parts = responses\<rparr>]
         \<and> length responses = length calls
         \<and> (\<forall>i<length calls.
               responses ! i
                 = FunctionResponse (fc_name (calls ! i))
                     (case snd (executeFunctionCall e invoices (fc_name (calls ! i))
                                  (fc_args (calls ! i))) of
                        Inr r \<Rightarrow> Result r
                      | Inl err \<Rightarrow> ErrorPayload (if err = NonError
                                                   then FallbackFor (fc_name (calls ! i))
                                                   else MessageOf err)))"
proof -
  note run = handleSend_calls
    [where st = st and invoices = invoices and callProxy = callProxy and t = t
       and reply = reply and e = e and calls = calls,
     OF assms(1) assms(2) assms(3) assms(4) assms(5)]
  let ?responses = "map (response_for e invoices) calls"
  from run(1) have "relay_calls (handleSend t e callProxy invoices st)
             = [first_request t st,
                first_request t st
                  @ [\<lparr>c_role = ''model'', c_parts = r_parts reply\<rparr>,
                     \<lparr>c_role = ''user'', c_parts = ?responses\<rparr>]]"
    by (simp add: second_request_def)
  moreover from run(3) have "history (handleSend t e callProxy invoices st)
             = first_request t st
                 @ [\<lparr>c_role = ''model'', c_parts = r_parts reply\<rparr>,
                    \<lparr>c_role = ''user'', c_parts = ?responses\<rparr>]"
    by (simp add: second_request_def)
  moreover have "length ?responses = length calls"
    by simp
  moreover have "\<forall>i<length calls.
               ?responses ! i
                 = FunctionResponse (fc_name (calls ! i))
                     (case snd (executeFunctionCall e invoices (fc_name (calls ! i))
                                  (fc_args (calls ! i))) of
                        Inr r \<Rightarrow> Result r
                      | Inl err \<Rightarrow> ErrorPayload (if err = NonError
                                                   then FallbackFor (fc_name (calls ! i))
                                                   else MessageOf err))"
    by (simp add: response_for_def)
  ultimately show ?thesis by blast
qed

theorem first_reply_answered_in_one_turn_witness:
  "\<not> blocked quiet_env asking \<and> \<not> context_throws []
   \<and> relay_two (first_request ui_strings asking) = Inr reply_two
   \<and> r_functionCalls reply_two = Some [\<lparr>fc_name = ''listInvoices'', fc_args = JObj []\<rparr>,
                                       \<lparr>fc_name = ''createInvoice'', fc_args = bob_no_due\<rparr>]
   \<and> executeFunctionCall quiet_env [] ''createInvoice'' bob_no_due = ([], Inl TypeError)
   \<and> relay_calls (handleSend ui_strings quiet_env relay_two [] asking)
       = [[\<lparr>c_role = ''user'', c_parts = [TextPart ''invoice for Bob'']\<rparr>],
          [\<lparr>c_role = ''user'', c_parts = [TextPart ''invoice for Bob'']\<rparr>,
           \<lparr>c_role = ''model'',
            c_parts = [FunctionCallPart ''listInvoices'' (JObj []),
                       FunctionCallPart ''createInvoice'' bob_no_due]\<rparr>,
           \<lparr>c_role = ''user'',
            c_parts = [FunctionResponse ''listInvoices''
                         (Result (Info (NoneWithStatus (JStr ''qualquer'')))),
                       FunctionResponse ''createInvoice''
                         (ErrorPayload (MessageOf TypeError))]\<rparr>]]"
proof -
  let ?calls = "[\<lparr>fc_name = ''listInvoices'', fc_args = JObj []\<rparr>,
                 \<lparr>fc_name = ''createInvoice'', fc_args = bob_no_due\<rparr>]"
  have ne: "?calls \<noteq> []" by simp
  from first_reply_answered_in_one_turn
    [where st = asking and invoices = "[]" and callProxy = relay_two and t = ui_strings
       and reply = reply_two and e = quiet_env and calls = ?calls,
     OF ex_not_blocked ex_context ex_relays(5) ex_calls(3) ne]
  obtain responses where
    sent: "relay_calls (handleSend ui_strings quiet_env relay_two [] asking)
             = [first_request ui_strings asking,
                first_request ui_strings asking
                  @ [\<lparr>c_role = ''model'', c_parts = r_parts reply_two\<rparr>,
                     \<lparr>c_role = ''user'', c_parts = responses\<rparr>]]"
    and len: "length responses = length ?calls"
    and each: "\<forall>i<length ?calls.
               responses ! i
                 = FunctionResponse (fc_name (?calls ! i))
                     (case snd (executeFunctionCall quiet_env [] (fc_name (?calls ! i))
                                  (fc_args (?calls ! i))) of
                        Inr r \<Rightarrow> Result r
                      | Inl err \<Rightarrow> ErrorPayload (if err = NonError
                                                   then FallbackFor (fc_name (?calls ! i))
                                                   else MessageOf err))"
    by blast
  from each have 0: "responses ! 0
      = FunctionResponse ''listInvoices'' (Result (Info (NoneWithStatus (JStr ''qualquer''))))"
    by (simp add: ex_list_empty)
  from each have "responses ! Suc 0
      = FunctionResponse (fc_name (?calls ! Suc 0))
          (case snd (executeFunctionCall quiet_env [] (fc_name (?calls ! Suc 0))
                       (fc_args (?calls ! Suc 0))) of
             Inr r \<Rightarrow> Result r
           | Inl err \<Rightarrow> ErrorPayload (if err = NonError
                                        then FallbackFor (fc_name (?calls ! Suc 0))
                                        else MessageOf err))"
    by (simp del: nth_Cons_Suc)
  then have 1: "responses ! Suc 0
      = FunctionResponse ''createInvoice'' (ErrorPayload (MessageOf TypeError))"
    by (simp add: ex_create_no_due)
  from len obtain a b where ab: "responses = [a, b]"
    by (cases responses; cases "tl responses") auto
  with 0 1 have r: "responses
      = [FunctionResponse ''listInvoices'' (Result (Info (NoneWithStatus (JStr ''qualquer'')))),
         FunctionResponse ''createInvoice'' (ErrorPayload (MessageOf TypeError))]"
    by simp
  from sent have 2: "relay_calls (handleSend ui_strings quiet_env relay_two [] asking)
       = [[\<lparr>c_role = ''user'', c_parts = [TextPart ''invoice for Bob'']\<rparr>],
          [\<lparr>c_role = ''user'', c_parts = [TextPart ''invoice for Bob'']\<rparr>,
           \<lparr>c_role = ''model'',
            c_parts = [FunctionCallPart ''listInvoices'' (JObj []),
                       FunctionCallPart ''createInvoice'' bob_no_due]\<rparr>,
           \<lparr>c_role = ''user'',
            c_parts = [FunctionResponse ''listInvoices''
                         (Result (Info (NoneWithStatus (JStr ''qualquer'')))),
                       FunctionResponse ''createInvoice''
                         (ErrorPayload (MessageOf TypeError))]\<rparr>]]"
    by (simp add: r ex_first) (simp add: reply_two_def)
  from ex_not_blocked ex_context ex_relays(5) ex_calls(3) ex_create_no_due 2
  show ?thesis by simp
qed

section \<open>Properties of the relay\<close>

text \<open>
  C5, as stated, fails: the credential is checked before the probe flag, so a probe sent
  to a server without the credential is answered with status 500.
\<close>

theorem probe_without_credential_counterexample:
  "handler ui_strings None provider_down ping_request
     = ([], Inr \<lparr>status = 500, json = ErrorJson ''API key not configured on server.''\<rparr>)"
  by (simp add: handler_def ping_request_def)

text \<open>
  C5, as the code has it. A POST request whose body has a truthy \<open>ping\<close> never
  reaches the provider, whatever the provider would answer; it is answered with status
  200 and \<open>{ status: 'ok' }\<close> when the credential is present, and with status 500 and
  the key-not-configured error when it is not.
\<close>

theorem probe_needs_credential_only:
  assumes "req_method req = ''POST''" and "read_prop (req_body req) ''ping'' = Inr ping" and "truthy ping"
  shows "fst (handler t apiKey generateContent req) = []
       \<and> (apiKey \<noteq> None \<and> apiKey \<noteq> Some []
            \<longrightarrow> snd (handler t apiKey generateContent req) = Inr \<lparr>status = 200, json = StatusOk\<rparr>)
       \<and> (apiKey = None \<or> apiKey = Some []
            \<longrightarrow> snd (handler t apiKey generateContent req)
                  = Inr \<lparr>status = 500, json = ErrorJson ''API key not configured on server.''\<rparr>)"
  using assms by (auto simp: handler_def)

theorem probe_needs_credential_only_witness:
  "req_method ping_request = ''POST'' \<and> read_prop (req_body ping_request) ''ping'' = Inr (JBool True)
   \<and> truthy (JBool True)
   \<and> handler ui_strings (Some ''secret'') provider_down ping_request
       = ([], Inr \<lparr>status = 200, json = StatusOk\<rparr>)
   \<and> handler ui_strings None provider_down ping_request
       = ([], Inr \<lparr>status = 500, json = ErrorJson ''API key not configured on server.''\<rparr>)"
proof -
  have a: "req_method ping_request = ''POST''" by (simp add: ping_request_def)
  have b: "read_prop (req_body ping_request) ''ping'' = Inr (JBool True)"
    by (simp add: ping_request_def read_prop_def get_def)
  have c: "truthy (JBool True)" by simp
  from probe_needs_credential_only [OF a b c, of ui_strings "Some ''secret''" provider_down]
  have 1: "handler ui_strings (Some ''secret'') provider_down ping_request
             = ([], Inr \<lparr>status = 200, json = StatusOk\<rparr>)"
    by (simp add: prod_eq_iff)
  from probe_needs_credential_only [OF a b c, of ui_strings None provider_down]
  have 2: "handler ui_strings None provider_down ping_request
             = ([], Inr \<lparr>status = 500, json = ErrorJson ''API key not configured on server.''\<rparr>)"
    by (simp add: prod_eq_iff)
  from a b c 1 2 show ?thesis by simp
qed

end
